theory Spec2Isabelle
  imports Complex_Main
begin

section \<open>The transition event accumulator of wemdtools/aframe/transacc.py\<close>

text \<open>
  The theory embeds the class \<^verbatim>\<open>TransitionEventAccumulator\<close>. The accumulator is a
  Python object whose attributes \<^verbatim>\<open>last_exit\<close>, \<^verbatim>\<open>last_entry\<close>, \<^verbatim>\<open>last_completion\<close>,
  \<^verbatim>\<open>weight_last_exit\<close> and \<^verbatim>\<open>bin_pops_last_exit\<close> are references to numpy arrays that
  the detection loop updates in place, and \<^verbatim>\<open>set_state\<close> stores the arrays of the
  dictionary it is given without copying them. The arrays therefore live in an explicit
  store, addressed by natural numbers, and the attributes hold addresses.

  Conventions of the embedding:
  \<^item> bin indices, timepoints, block numbers and counts are natural numbers; the arrays of
    \<^verbatim>\<open>index_dtype\<close> hold array positions, which stay far below \<open>2 ^ 64\<close>. The one place
    where the source relies on the wrap-around of unsigned 64-bit arithmetic, the
    negation in \<^verbatim>\<open>-last_exit + trans_ti + 1\<close>, is written out modulo \<open>2 ^ 64\<close>;
  \<^item> a \<^verbatim>\<open>float64\<close> is only ever copied by this class, never computed with; it is a real
    number or NaN (what numpy stores when \<^verbatim>\<open>None\<close> is assigned to a float array);
  \<^item> the arrays of the accumulator are created by \<^verbatim>\<open>clear_state\<close> with \<open>n_bins\<close> entries;
    element accesses are checked against \<open>n_bins\<close>, and an access out of range raises
    \<^verbatim>\<open>IndexError\<close>, as does a non-empty boolean mask whose length differs from the array
    it selects from (numpy accepts an empty mask on an array of any length, and it selects
    nothing);
  \<^item> an operation returns the exception it raised, if any, together with the state the
    object is left in, and the accumulating operations also return their local list
    \<^verbatim>\<open>tdat\<close>: the transition records the call has emitted.
\<close>

datatype float64 = Fl real | NaN

datatype py_error = IndexError | TypeError

type_synonym addr = nat

text \<open>One element of \<^verbatim>\<open>tdat\<close>, with the field names of \<^verbatim>\<open>tdat_dtype\<close>.\<close>

record tdat =
  block :: nat
  timepoint' :: nat
  initial_bin :: nat
  final_bin :: nat
  initial_weight :: float64
  final_weight :: float64
  initial_bin_pop :: float64
  duration :: nat
  fpt :: nat

text \<open>
  The parameters fixed at construction. \<^verbatim>\<open>tdat_buffersize\<close> is a class attribute of
  value 524288 in the source; it is a parameter here.
\<close>

record config =
  n_bins :: nat
  calc_fpts :: bool
  tdat_buffersize :: nat

text \<open>
  The dictionary of \<^verbatim>\<open>get_state\<close> and \<^verbatim>\<open>set_state\<close>: five array references and three
  plain values.
\<close>

record state_dict =
  last_entry :: addr
  last_exit :: addr
  last_completion :: addr
  weight_last_exit :: addr
  bin_pops_last_exit :: addr
  timepoint :: nat
  last_bin :: "nat option"
  last_bin_pop :: "float64 option"

text \<open>
  The accumulator object (its eight state attributes, the count matrix, the write
  buffer, the output dataset) and the store of numpy arrays: \<open>uint_arrays\<close> for the
  one-dimensional arrays of \<^verbatim>\<open>index_dtype\<close>, \<open>uint_matrices\<close> for the two-dimensional ones,
  \<open>float_arrays\<close> for those of \<^verbatim>\<open>weight_dtype\<close>; \<open>next_addr\<close> is the next unused address.
\<close>

record world = state_dict +
  n_trans :: "nat list list"
  tdat_buffer :: "tdat list"
  tdat_buffer_offset :: nat
  output_tdat_offset :: nat
  output_tdat_ds :: "tdat list option"
  uint_arrays :: "addr \<Rightarrow> nat list"
  uint_matrices :: "addr \<Rightarrow> nat list list"
  float_arrays :: "addr \<Rightarrow> float64 list"
  next_addr :: addr

subsection \<open>Array creation\<close>

definition new_uint_array :: "nat list \<Rightarrow> world \<Rightarrow> addr \<times> world" where
  "new_uint_array v w =
     (next_addr w, w\<lparr>uint_arrays := (uint_arrays w)(next_addr w := v), next_addr := Suc (next_addr w)\<rparr>)"

definition new_uint_matrix :: "nat list list \<Rightarrow> world \<Rightarrow> addr \<times> world" where
  "new_uint_matrix v w =
     (next_addr w, w\<lparr>uint_matrices := (uint_matrices w)(next_addr w := v), next_addr := Suc (next_addr w)\<rparr>)"

definition new_float_array :: "float64 list \<Rightarrow> world \<Rightarrow> addr \<times> world" where
  "new_float_array v w =
     (next_addr w, w\<lparr>float_arrays := (float_arrays w)(next_addr w := v), next_addr := Suc (next_addr w)\<rparr>)"

text \<open>
  The fill record of a dataset, and \<^verbatim>\<open>numpy.empty\<close> for the write buffer: its entries are
  never read before they are written.
\<close>

definition zero_tdat :: tdat where
  "zero_tdat = \<lparr>block = 0, timepoint' = 0, initial_bin = 0, final_bin = 0,
     initial_weight = Fl 0, final_weight = Fl 0, initial_bin_pop = Fl 0, duration = 0, fpt = 0\<rparr>"

definition empty_buffer :: "nat \<Rightarrow> tdat list" where
  "empty_buffer n = replicate n zero_tdat"

subsection \<open>clear_state, clear, get_state, set_state\<close>

definition clear_state :: "config \<Rightarrow> world \<Rightarrow> world" where
  "clear_state cfg w =
     (let (a1, w1) = new_uint_array (replicate (n_bins cfg) 0) w;
          (a2, w2) = new_uint_array (replicate (n_bins cfg) 0) w1;
          (a3, w3) = new_uint_matrix (replicate (n_bins cfg) (replicate (n_bins cfg) 0)) w2;
          (a4, w4) = new_float_array (replicate (n_bins cfg) (Fl 0)) w3;
          (a5, w5) = new_float_array (replicate (n_bins cfg) (Fl 0)) w4
      in w5\<lparr>last_exit := a1, last_entry := a2, last_completion := a3,
            weight_last_exit := a4, bin_pops_last_exit := a5,
            timepoint := 0, last_bin := None, last_bin_pop := None\<rparr>)"

definition clear :: "config \<Rightarrow> world \<Rightarrow> world" where
  "clear cfg w =
     (clear_state cfg w)\<lparr>n_trans := replicate (n_bins cfg) (replicate (n_bins cfg) 0),
        tdat_buffer := empty_buffer (tdat_buffersize cfg),
        tdat_buffer_offset := 0, output_tdat_offset := 0, output_tdat_ds := None\<rparr>"

text \<open>
  \<^verbatim>\<open>__init__\<close> sets every attribute and calls \<^verbatim>\<open>clear\<close>; the store holds no array yet.
\<close>

definition empty_world :: world where
  "empty_world = \<lparr>last_entry = 0, last_exit = 0, last_completion = 0, weight_last_exit = 0,
     bin_pops_last_exit = 0, timepoint = 0, last_bin = None, last_bin_pop = None,
     n_trans = [], tdat_buffer = [], tdat_buffer_offset = 0, output_tdat_offset = 0,
     output_tdat_ds = None, uint_arrays = (\<lambda>_. []), uint_matrices = (\<lambda>_. []),
     float_arrays = (\<lambda>_. []), next_addr = 0\<rparr>"

definition init :: "config \<Rightarrow> world" where
  "init cfg = clear cfg empty_world"

text \<open>\<^verbatim>\<open>get_state\<close> copies each of the five arrays into a new one.\<close>

definition get_state :: "world \<Rightarrow> state_dict \<times> world" where
  "get_state w =
     (let (a1, w1) = new_uint_array (uint_arrays w (last_entry w)) w;
          (a2, w2) = new_uint_array (uint_arrays w (last_exit w)) w1;
          (a3, w3) = new_uint_matrix (uint_matrices w (last_completion w)) w2;
          (a4, w4) = new_float_array (float_arrays w (weight_last_exit w)) w3;
          (a5, w5) = new_float_array (float_arrays w (bin_pops_last_exit w)) w4
      in (\<lparr>last_entry = a1, last_exit = a2, last_completion = a3, weight_last_exit = a4,
           bin_pops_last_exit = a5, timepoint = timepoint w, last_bin = last_bin w,
           last_bin_pop = last_bin_pop w\<rparr>, w5))"

text \<open>\<^verbatim>\<open>set_state\<close> stores the references of the dictionary: nothing is copied.\<close>

definition set_state :: "state_dict \<Rightarrow> world \<Rightarrow> world" where
  "set_state state_dict w =
     w\<lparr>last_entry := last_entry state_dict, last_exit := last_exit state_dict,
       last_completion := last_completion state_dict,
       weight_last_exit := weight_last_exit state_dict,
       bin_pops_last_exit := bin_pops_last_exit state_dict,
       timepoint := timepoint state_dict, last_bin := last_bin state_dict,
       last_bin_pop := last_bin_pop state_dict\<rparr>"

subsection \<open>The write buffer and the output dataset\<close>

text \<open>
  \<^verbatim>\<open>ds.resize((n,))\<close> truncates or extends with fill records; \<^verbatim>\<open>xs[a:b] = ys\<close> replaces
  the slice, where the callers make \<open>b - a\<close> the length of \<open>ys\<close> and \<open>b\<close> at most the
  length of \<open>xs\<close>.
\<close>

definition resize :: "nat \<Rightarrow> tdat list \<Rightarrow> tdat list" where
  "resize n ds = take n ds @ replicate (n - length ds) zero_tdat"

definition assign_slice :: "'a list \<Rightarrow> nat \<Rightarrow> nat \<Rightarrow> 'a list \<Rightarrow> 'a list" where
  "assign_slice xs a b ys = take a xs @ ys @ drop b xs"

definition flush_transition_data :: "world \<Rightarrow> world" where
  "flush_transition_data w =
     (case output_tdat_ds w of
        None \<Rightarrow> w
      | Some ds \<Rightarrow>
          let nbuf = tdat_buffer_offset w in
          if nbuf = 0 then w
          else
            let ub = nbuf + output_tdat_offset w;
                ds1 = (if ub > length ds then resize ub ds else ds);
                ds2 = assign_slice ds1 (output_tdat_offset w) ub (take nbuf (tdat_buffer w))
            in w\<lparr>output_tdat_ds := Some ds2,
                 output_tdat_offset := output_tdat_offset w + nbuf,
                 tdat_buffer_offset := 0\<rparr>)"

definition record_transition_data :: "config \<Rightarrow> tdat list \<Rightarrow> world \<Rightarrow> world" where
  "record_transition_data cfg td w =
     (let w1 = (case output_tdat_ds w of
                  None \<Rightarrow> w\<lparr>output_tdat_ds := Some [zero_tdat]\<rparr>
                | Some _ \<Rightarrow> w)
      in if length td + tdat_buffer_offset w1 > tdat_buffersize cfg then
           let w2 = flush_transition_data w1;
               ub = output_tdat_offset w2 + length td
           in (case output_tdat_ds w2 of
                 None \<Rightarrow> w2
               | Some ds \<Rightarrow>
                   w2\<lparr>output_tdat_ds := Some (assign_slice (resize ub ds) (output_tdat_offset w2) ub td),
                      output_tdat_offset := output_tdat_offset w2 + length td\<rparr>)
         else
           w1\<lparr>tdat_buffer := assign_slice (tdat_buffer w1) (tdat_buffer_offset w1)
                                (tdat_buffer_offset w1 + length td) td,
               tdat_buffer_offset := tdat_buffer_offset w1 + length td\<rparr>)"

subsection \<open>Crossing detection and completion: _accumulate_transitions\<close>

text \<open>
  \<^verbatim>\<open>xs[mask]\<close> for a boolean mask of the length of \<open>xs\<close>, or for an empty mask, which
  selects nothing.
\<close>

definition mask_select :: "'a list \<Rightarrow> bool list \<Rightarrow> 'a list" where
  "mask_select xs msk = map fst (filter snd (zip xs msk))"

text \<open>Unsigned 64-bit negation and addition, as numpy computes them on \<^verbatim>\<open>uintp\<close> arrays.\<close>

definition uint64_neg :: "nat \<Rightarrow> nat" where
  "uint64_neg x = (2 ^ 64 - x mod 2 ^ 64) mod 2 ^ 64"

definition uint64_add :: "nat \<Rightarrow> nat \<Rightarrow> nat" where
  "uint64_add a b = (a + b) mod 2 ^ 64"

text \<open>In-place element assignment \<^verbatim>\<open>arr[i] = v\<close> on the array at an address.\<close>

definition set_uint :: "addr \<Rightarrow> nat \<Rightarrow> nat \<Rightarrow> world \<Rightarrow> world" where
  "set_uint a i v w = w\<lparr>uint_arrays := (uint_arrays w)(a := (uint_arrays w a)[i := v])\<rparr>"

definition set_float :: "addr \<Rightarrow> nat \<Rightarrow> float64 \<Rightarrow> world \<Rightarrow> world" where
  "set_float a i v w = w\<lparr>float_arrays := (float_arrays w)(a := (float_arrays w a)[i := v])\<rparr>"

text \<open>
  \<^verbatim>\<open>m[mask, j] = f(m[mask, j])\<close>: the entry of column \<open>j\<close> is replaced in every row that the
  mask selects.
\<close>

definition update_column :: "(nat \<Rightarrow> nat) \<Rightarrow> bool list \<Rightarrow> nat \<Rightarrow> nat list list \<Rightarrow> nat list list" where
  "update_column f msk j m =
     map (\<lambda>i. if msk ! i then (m ! i)[j := f (m ! i ! j)] else m ! i) [0..<length m]"

text \<open>
  One element of the \<^verbatim>\<open>izip\<close> of the loop:
  \<open>(trans_ti, weight, ibin, fbin, ibinpops)\<close>.
\<close>

type_synonym crossing = "nat \<times> float64 \<times> nat \<times> nat \<times> float64 list"

text \<open>
  The first part of the loop body, "Record this crossing event's data". The four
  assignments run in the order of the source, so an index out of range leaves the
  earlier ones done.
\<close>

definition record_crossing :: "config \<Rightarrow> crossing \<Rightarrow> world \<Rightarrow> py_error option \<times> world" where
  "record_crossing cfg c w =
     (case c of (trans_ti, weight, ibin, fbin, ibinpops) \<Rightarrow>
        if \<not> ibin < length ibinpops \<or> \<not> ibin < n_bins cfg then (Some IndexError, w)
        else
          let w1 = set_float (bin_pops_last_exit w) ibin (ibinpops ! ibin) w;
              w2 = set_uint (last_exit w1) ibin trans_ti w1
          in if \<not> fbin < n_bins cfg then (Some IndexError, w2)
             else
               let w3 = set_uint (last_entry w2) fbin trans_ti w2;
                   w4 = set_float (weight_last_exit w3) ibin weight w3
               in (None, w4))"

text \<open>
  The rest of the loop body: the mask \<^verbatim>\<open>iibdisc\<close> of the bins whose transition into
  \<open>fbin\<close> this crossing completes, the durations and first passage times, one record for
  every selected bin in increasing order, and the update of \<^verbatim>\<open>last_completion\<close> and
  \<^verbatim>\<open>n_trans\<close>. It returns the new records with the state.
\<close>

definition complete_transitions :: "config \<Rightarrow> nat \<Rightarrow> crossing \<Rightarrow> world \<Rightarrow> world \<times> tdat list" where
  "complete_transitions cfg blk c w =
     (case c of (trans_ti, weight, ibin, fbin, ibinpops) \<Rightarrow>
        let lexit = uint_arrays w (last_exit w);
            lentry = uint_arrays w (last_entry w);
            lc_fbin = map (\<lambda>row. row ! fbin) (uint_matrices w (last_completion w));
            iibdisc = map (\<lambda>i. 0 < lexit ! i \<and> lc_fbin ! i < lentry ! i) [0..<n_bins cfg];
            durations = map (\<lambda>x. uint64_add (uint64_add (uint64_neg x) trans_ti) 1) lexit;
            fpts = map (\<lambda>x. if x = 0 then 0 else uint64_add (uint64_neg x) trans_ti) lc_fbin;
            new = map (\<lambda>iibin.
                    \<lparr>block = blk, timepoint' = trans_ti, initial_bin = iibin, final_bin = fbin,
                     initial_weight = float_arrays w (weight_last_exit w) ! iibin,
                     final_weight = weight,
                     initial_bin_pop = float_arrays w (bin_pops_last_exit w) ! iibin,
                     duration = durations ! iibin,
                     fpt = (if calc_fpts cfg then fpts ! iibin else 0)\<rparr>)
                    (mask_select [0..<n_bins cfg] iibdisc);
            w1 = w\<lparr>uint_matrices := (uint_matrices w)(last_completion w :=
                     update_column (\<lambda>_. trans_ti) iibdisc fbin (uint_matrices w (last_completion w)))\<rparr>;
            w2 = w1\<lparr>n_trans := update_column Suc iibdisc fbin (n_trans w1)\<rparr>
        in (w2, new))"

definition crossing_event :: "config \<Rightarrow> nat \<Rightarrow> crossing \<Rightarrow> world \<Rightarrow> py_error option \<times> world \<times> tdat list" where
  "crossing_event cfg blk c w =
     (let r = record_crossing cfg c w
      in if fst r = None then (None, complete_transitions cfg blk c (snd r))
         else (fst r, snd r, []))"

text \<open>
  The loop over the crossings. \<^verbatim>\<open>tdat_maxlen\<close> is \<^verbatim>\<open>tdat_buffersize / 10\<close> in true
  division, so \<^verbatim>\<open>len(tdat) > tdat_maxlen\<close> is \<open>10 * length tdat > tdat_buffersize\<close>. The list
  \<^verbatim>\<open>tdat\<close> is handed to \<^verbatim>\<open>record_transition_data\<close> and kept as it is. An exception ends
  the loop; the result is the exception, the state reached and \<^verbatim>\<open>tdat\<close> at that moment.
\<close>

fun crossing_loop :: "config \<Rightarrow> nat \<Rightarrow> crossing list \<Rightarrow> world \<Rightarrow> tdat list
    \<Rightarrow> py_error option \<times> world \<times> tdat list" where
  "crossing_loop cfg blk [] w td = (None, w, td)"
| "crossing_loop cfg blk (c # cs) w td =
     (let r = crossing_event cfg blk c w
      in if fst r = None then
           crossing_loop cfg blk cs
             (if 10 * length (td @ snd (snd r)) > tdat_buffersize cfg
              then record_transition_data cfg (td @ snd (snd r)) (fst (snd r))
              else fst (snd r))
             (td @ snd (snd r))
         else (fst r, fst (snd r), td))"

text \<open>
  The final cursor update reads \<^verbatim>\<open>timepoints[-1]\<close>, \<^verbatim>\<open>assignments[-1]\<close> and
  \<^verbatim>\<open>bin_pops[-1, assignments[-1]]\<close> in this order, each of which raises \<^verbatim>\<open>IndexError\<close>
  on an empty array or an index out of range, after the assignments before it.
\<close>

definition update_cursor :: "nat list \<Rightarrow> nat list \<Rightarrow> float64 list list \<Rightarrow> world
    \<Rightarrow> py_error option \<times> world" where
  "update_cursor timepoints assignments bin_pops w =
     (if timepoints = [] then (Some IndexError, w)
      else if assignments = [] then (Some IndexError, w\<lparr>timepoint := last timepoints\<rparr>)
      else if bin_pops = [] \<or> \<not> last assignments < length (last bin_pops)
      then (Some IndexError, w\<lparr>timepoint := last timepoints, last_bin := Some (last assignments)\<rparr>)
      else (None, w\<lparr>timepoint := last timepoints, last_bin := Some (last assignments),
                     last_bin_pop := Some (last bin_pops ! last assignments)\<rparr>))"

definition accumulate_transitions :: "config \<Rightarrow> nat list \<Rightarrow> nat list \<Rightarrow> float64 list
    \<Rightarrow> float64 list list \<Rightarrow> nat \<Rightarrow> world \<Rightarrow> py_error option \<times> world \<times> tdat list" where
  "accumulate_transitions cfg timepoints assignments weights bin_pops blk w =
     (let assignments_from_1 = tl assignments;
          assignments_to_1 = butlast assignments;
          trans_occur = map2 (\<lambda>a b. a \<noteq> b) assignments_from_1 assignments_to_1
      in if trans_occur \<noteq> []
            \<and> (length (tl timepoints) \<noteq> length trans_occur
               \<or> length (tl weights) \<noteq> length trans_occur
               \<or> length (butlast bin_pops) \<noteq> length trans_occur)
         then (Some IndexError, w, [])
         else
           let trans_ibin = mask_select assignments_to_1 trans_occur;
               trans_fbin = mask_select assignments_from_1 trans_occur;
               trans_timepoints = mask_select (tl timepoints) trans_occur;
               trans_weights = mask_select (tl weights) trans_occur;
               trans_ibinpops = mask_select (butlast bin_pops) trans_occur;
               r = crossing_loop cfg blk
                     (zip trans_timepoints (zip trans_weights (zip trans_ibin
                        (zip trans_fbin trans_ibinpops)))) w []
           in if fst r = None then
                (let u = update_cursor timepoints assignments bin_pops
                           (record_transition_data cfg (snd (snd r)) (fst (snd r)))
                 in (fst u, snd u, snd (snd r)))
              else r)"

subsection \<open>start_accumulation and continue_accumulation\<close>

definition start_accumulation :: "config \<Rightarrow> nat list \<Rightarrow> float64 list \<Rightarrow> float64 list list
    \<Rightarrow> nat \<Rightarrow> world \<Rightarrow> py_error option \<times> world \<times> tdat list" where
  "start_accumulation cfg assignments weights bin_pops blk w =
     accumulate_transitions cfg [0..<length assignments] assignments weights bin_pops blk
       (clear_state cfg w)"

text \<open>
  \<^verbatim>\<open>continue_accumulation\<close> puts one sample in front of the segment: the bin of the
  cursor, weight 0, and a population row that is 0 except for \<^verbatim>\<open>last_bin_pop\<close> at the
  cursor's bin. Storing \<^verbatim>\<open>None\<close> into the integer array \<^verbatim>\<open>aug_assign\<close> raises
  \<^verbatim>\<open>TypeError\<close>; \<^verbatim>\<open>bin_pops[0]\<close> of an empty array raises \<^verbatim>\<open>IndexError\<close>.
\<close>

definition continue_accumulation :: "config \<Rightarrow> nat list \<Rightarrow> float64 list \<Rightarrow> float64 list list
    \<Rightarrow> nat \<Rightarrow> world \<Rightarrow> py_error option \<times> world \<times> tdat list" where
  "continue_accumulation cfg assignments weights bin_pops blk w =
     (case last_bin w of
        None \<Rightarrow> (Some TypeError, w, [])
      | Some lb \<Rightarrow>
          let aug_assign = lb # assignments;
              aug_weights = Fl 0 # weights
          in (case bin_pops of
                [] \<Rightarrow> (Some IndexError, w, [])
              | row # _ \<Rightarrow>
                  if \<not> lb < length row then (Some IndexError, w, [])
                  else
                    let aug_pops = (replicate (length row) (Fl 0))
                                     [lb := (case last_bin_pop w of None \<Rightarrow> NaN | Some p \<Rightarrow> p)]
                                   # bin_pops;
                        timepoints = [timepoint w..<timepoint w + length aug_assign]
                    in accumulate_transitions cfg timepoints aug_assign aug_weights aug_pops blk w))"


subsection \<open>Reading the arrays of the accumulator\<close>

definition arr_last_exit :: "world \<Rightarrow> nat list" where
  "arr_last_exit w = uint_arrays w (last_exit w)"

definition arr_last_entry :: "world \<Rightarrow> nat list" where
  "arr_last_entry w = uint_arrays w (last_entry w)"

definition arr_last_completion :: "world \<Rightarrow> nat list list" where
  "arr_last_completion w = uint_matrices w (last_completion w)"

text \<open>The results of an operation: exception, state, emitted records.\<close>

definition raised :: "py_error option \<times> world \<times> tdat list \<Rightarrow> py_error option" where
  "raised r = fst r"

definition state_after :: "py_error option \<times> world \<times> tdat list \<Rightarrow> world" where
  "state_after r = fst (snd r)"

definition emitted :: "py_error option \<times> world \<times> tdat list \<Rightarrow> tdat list" where
  "emitted r = snd (snd r)"

subsection \<open>The scenario of the specification\<close>

text \<open>
  Three bins, assignments \<open>[0,0,1,1,2,2,1,0]\<close>, all weights 1, and the whole population
  in the occupied bin at every timepoint; the accumulator is freshly constructed.
\<close>

definition scenario_cfg :: config where
  "scenario_cfg = \<lparr>n_bins = 3, calc_fpts = True, tdat_buffersize = 524288\<rparr>"

definition scenario_assignments :: "nat list" where
  "scenario_assignments = [0, 0, 1, 1, 2, 2, 1, 0]"

definition scenario_weights :: "float64 list" where
  "scenario_weights = [Fl 1, Fl 1, Fl 1, Fl 1, Fl 1, Fl 1, Fl 1, Fl 1]"

definition scenario_pops :: "float64 list list" where
  "scenario_pops = [[Fl 1, Fl 0, Fl 0], [Fl 1, Fl 0, Fl 0], [Fl 0, Fl 1, Fl 0], [Fl 0, Fl 1, Fl 0],
                    [Fl 0, Fl 0, Fl 1], [Fl 0, Fl 0, Fl 1], [Fl 0, Fl 1, Fl 0], [Fl 1, Fl 0, Fl 0]]"

definition scenario_run :: "py_error option \<times> world \<times> tdat list" where
  "scenario_run = start_accumulation scenario_cfg scenario_assignments scenario_weights
                    scenario_pops 0 (init scenario_cfg)"

definition transition :: "nat \<Rightarrow> nat \<Rightarrow> nat \<Rightarrow> nat \<Rightarrow> tdat" where
  "transition t i j d = \<lparr>block = 0, timepoint' = t, initial_bin = i, final_bin = j,
     initial_weight = Fl 1, final_weight = Fl 1, initial_bin_pop = Fl 1, duration = d, fpt = 0\<rparr>"

definition scenario_crossings :: "crossing list" where
  "scenario_crossings =
     [(2, Fl 1, 0, 1, [Fl 1, Fl 0, Fl 0]), (4, Fl 1, 1, 2, [Fl 0, Fl 1, Fl 0]),
      (6, Fl 1, 2, 1, [Fl 0, Fl 0, Fl 1]), (7, Fl 1, 1, 0, [Fl 0, Fl 1, Fl 0])]"

text \<open>The state in which the loop of the scenario meets its crossing number \<open>k\<close>.\<close>

definition scenario_state :: "nat \<Rightarrow> world" where
  "scenario_state k =
     fst (snd (crossing_loop scenario_cfg 0 (take k scenario_crossings)
                 (clear_state scenario_cfg (init scenario_cfg)) []))"

subsection \<open>A snapshot restored and continued from\<close>

text \<open>What a snapshot holds: the contents of its five arrays and its three values.\<close>

definition snapshot_contents :: "world \<Rightarrow> state_dict
    \<Rightarrow> nat list \<times> nat list \<times> nat list list \<times> float64 list \<times> float64 list
        \<times> nat \<times> nat option \<times> float64 option" where
  "snapshot_contents w s =
     (uint_arrays w (last_entry s), uint_arrays w (last_exit s),
      uint_matrices w (last_completion s), float_arrays w (weight_last_exit s),
      float_arrays w (bin_pops_last_exit s), timepoint s, last_bin s, last_bin_pop s)"

text \<open>
  Two bins. A trajectory \<open>[0, 1]\<close> is accumulated, a snapshot is taken with
  \<^verbatim>\<open>get_state\<close> and restored with \<^verbatim>\<open>set_state\<close>, and the trajectory is continued with the
  segment \<open>[0]\<close>.
\<close>

definition branch_cfg :: config where
  "branch_cfg = \<lparr>n_bins = 2, calc_fpts = True, tdat_buffersize = 524288\<rparr>"

definition branch_point :: world where
  "branch_point = state_after (start_accumulation branch_cfg [0, 1] [Fl 1, Fl 1]
                    [[Fl 1, Fl 0], [Fl 0, Fl 1]] 0 (init branch_cfg))"

definition branch_snapshot :: state_dict where
  "branch_snapshot = fst (get_state branch_point)"

definition branch_restored :: world where
  "branch_restored = set_state branch_snapshot (snd (get_state branch_point))"

definition branch_continued :: world where
  "branch_continued = state_after (continue_accumulation branch_cfg [0] [Fl 1] [[Fl 1, Fl 0]] 0
                        branch_restored)"

subsection \<open>The same input at two buffer capacities\<close>

text \<open>
  Two bins and the trajectory \<open>[0, 1, 0, 1]\<close> on a freshly constructed accumulator of
  capacity \<open>c\<close>; \<open>written c\<close> is the output dataset after the final flush.
\<close>

definition capacity_cfg :: "nat \<Rightarrow> config" where
  "capacity_cfg c = \<lparr>n_bins = 2, calc_fpts = True, tdat_buffersize = c\<rparr>"

definition written :: "nat \<Rightarrow> tdat list option" where
  "written c = output_tdat_ds (flush_transition_data (state_after
     (start_accumulation (capacity_cfg c) [0, 1, 0, 1] [Fl 1, Fl 1, Fl 1, Fl 1]
        [[Fl 1, Fl 0], [Fl 0, Fl 1], [Fl 1, Fl 0], [Fl 0, Fl 1]] 0 (init (capacity_cfg c)))))"

subsection \<open>Well-formed input and state\<close>

text \<open>
  A segment as the trajectory supplier delivers it: at least one sample, three arrays of
  one length, bin indices below \<open>n_bins\<close>, population rows of \<open>n_bins\<close> entries.
\<close>

definition chunk_ok :: "config \<Rightarrow> nat list \<Rightarrow> float64 list \<Rightarrow> float64 list list \<Rightarrow> bool" where
  "chunk_ok cfg assignments weights bin_pops \<longleftrightarrow>
     assignments \<noteq> [] \<and> length weights = length assignments
     \<and> length bin_pops = length assignments
     \<and> (\<forall>b \<in> set assignments. b < n_bins cfg)
     \<and> (\<forall>row \<in> set bin_pops. length row = n_bins cfg)"

text \<open>
  No exit recorded in \<^verbatim>\<open>last_exit\<close> is later than the cursor. \<^verbatim>\<open>clear_state\<close> establishes
  this and an accumulation that returns normally keeps it.
\<close>

definition exits_bounded :: "config \<Rightarrow> world \<Rightarrow> bool" where
  "exits_bounded cfg w \<longleftrightarrow>
     length (arr_last_exit w) = n_bins cfg \<and> (\<forall>x \<in> set (arr_last_exit w). x \<le> timepoint w)"

text \<open>
  Everything of the accumulator but its write buffer and output dataset: the array
  references, the cursor, the count matrix and the store.
\<close>

definition core :: "world \<Rightarrow> (addr \<times> addr \<times> addr \<times> addr \<times> addr) \<times> (nat \<times> nat option \<times> float64 option)
    \<times> nat list list \<times> (addr \<Rightarrow> nat list) \<times> (addr \<Rightarrow> nat list list) \<times> (addr \<Rightarrow> float64 list) \<times> addr" where
  "core w =
     ((last_entry w, last_exit w, last_completion w, weight_last_exit w, bin_pops_last_exit w),
      (timepoint w, last_bin w, last_bin_pop w),
      n_trans w, uint_arrays w, uint_matrices w, float_arrays w, next_addr w)"

subsection \<open>Sequences of calls\<close>

text \<open>
  A caller's use of one accumulator: the calls it makes one after the other. The
  snapshots that \<^verbatim>\<open>get_state\<close> returns are kept in a list, and \<open>SetState k\<close> restores the
  snapshot number \<open>k\<close> of that list (a call that names no snapshot taken so far changes
  nothing). A call that raises leaves the accumulator as it is at that moment, and the
  caller goes on. The third component collects the records emitted by all calls.
\<close>

datatype call =
    Start "nat list" "float64 list" "float64 list list" nat
  | Continue "nat list" "float64 list" "float64 list list" nat
  | ClearState
  | GetState
  | SetState nat

type_synonym session = "world \<times> state_dict list \<times> tdat list"

fun call_step :: "config \<Rightarrow> session \<Rightarrow> call \<Rightarrow> session" where
  "call_step cfg (w, snaps, recs) (Start a ws ps blk) =
     (let r = start_accumulation cfg a ws ps blk w in (fst (snd r), snaps, recs @ snd (snd r)))"
| "call_step cfg (w, snaps, recs) (Continue a ws ps blk) =
     (let r = continue_accumulation cfg a ws ps blk w in (fst (snd r), snaps, recs @ snd (snd r)))"
| "call_step cfg (w, snaps, recs) ClearState = (clear_state cfg w, snaps, recs)"
| "call_step cfg (w, snaps, recs) GetState =
     (let r = get_state w in (snd r, snaps @ [fst r], recs))"
| "call_step cfg (w, snaps, recs) (SetState k) =
     (if k < length snaps then (set_state (snaps ! k) w, snaps, recs) else (w, snaps, recs))"

definition run :: "config \<Rightarrow> call list \<Rightarrow> session" where
  "run cfg calls = foldl (call_step cfg) (init cfg, [], []) calls"

definition count_records :: "nat \<Rightarrow> nat \<Rightarrow> tdat list \<Rightarrow> nat" where
  "count_records i j recs = length (filter (\<lambda>r. initial_bin r = i \<and> final_bin r = j) recs)"

subsection \<open>A snapshot restored twice, and a call that raises\<close>

text \<open>
  Three bins. The trajectory starts with one sample in bin 0, a snapshot is taken and
  restored, the trajectory is continued through the bins 1 and 2, and the same snapshot is
  restored again: the cursor is back at timepoint 0, and the arrays, which are those of
  the snapshot, hold what the first continuation has written. \<open>revisit_run\<close> is the second
  continuation from the snapshot, with one sample in bin 1.
\<close>

definition revisit_calls :: "call list" where
  "revisit_calls =
     [Start [0] [Fl 1] [[Fl 1, Fl 0, Fl 0]] 0, GetState, SetState 0,
      Continue [1, 2] [Fl 1, Fl 1] [[Fl 0, Fl 1, Fl 0], [Fl 0, Fl 0, Fl 1]] 0, SetState 0]"

definition revisit_state :: world where
  "revisit_state = fst (run scenario_cfg revisit_calls)"

definition revisit_run :: "py_error option \<times> world \<times> tdat list" where
  "revisit_run = continue_accumulation scenario_cfg [1] [Fl 1] [[Fl 0, Fl 1, Fl 0]] 0 revisit_state"

text \<open>
  No snapshot here: after the same start, a continuation names a bin 5 that does not
  exist and raises \<^verbatim>\<open>IndexError\<close> inside the loop, after the exit from bin 1 at timepoint 2
  has been stored and before the cursor is moved. \<open>failed_run\<close> is the next continuation.
\<close>

definition failed_calls :: "call list" where
  "failed_calls =
     [Start [0] [Fl 1] [[Fl 1, Fl 0, Fl 0]] 0,
      Continue [1, 5] [Fl 1, Fl 1] [[Fl 0, Fl 1, Fl 0], [Fl 0, Fl 0, Fl 1]] 0]"

definition failed_state :: world where
  "failed_state = fst (run scenario_cfg failed_calls)"

definition failed_run :: "py_error option \<times> world \<times> tdat list" where
  "failed_run = continue_accumulation scenario_cfg [1] [Fl 1] [[Fl 0, Fl 1, Fl 0]] 0 failed_state"

subsection \<open>Notions used in the proofs\<close>

text \<open>
  The list of crossings that \<^verbatim>\<open>_accumulate_transitions\<close> hands to its loop, as a function of
  the four arrays.
\<close>

definition crossings_of :: "nat list \<Rightarrow> nat list \<Rightarrow> float64 list \<Rightarrow> float64 list list
    \<Rightarrow> crossing list" where
  "crossings_of timepoints assignments weights bin_pops =
     (let trans_occur = map2 (\<lambda>a b. a \<noteq> b) (tl assignments) (butlast assignments)
      in zip (mask_select (tl timepoints) trans_occur)
           (zip (mask_select (tl weights) trans_occur)
              (zip (mask_select (butlast assignments) trans_occur)
                 (zip (mask_select (tl assignments) trans_occur)
                    (mask_select (butlast bin_pops) trans_occur)))))"

text \<open>What the loop body reads and writes: array references, count matrix and store.\<close>

definition detection_state :: "world \<Rightarrow> (addr \<times> addr \<times> addr \<times> addr \<times> addr)
    \<times> nat list list \<times> (addr \<Rightarrow> nat list) \<times> (addr \<Rightarrow> nat list list) \<times> (addr \<Rightarrow> float64 list) \<times> addr" where
  "detection_state w =
     ((last_entry w, last_exit w, last_completion w, weight_last_exit w, bin_pops_last_exit w),
      n_trans w, uint_arrays w, uint_matrices w, float_arrays w, next_addr w)"

text \<open>The count matrix has \<open>n_bins\<close> rows of \<open>n_bins\<close> entries, as \<^verbatim>\<open>clear\<close> creates it.\<close>

definition shape :: "config \<Rightarrow> world \<Rightarrow> bool" where
  "shape cfg w \<longleftrightarrow>
     length (n_trans w) = n_bins cfg \<and> (\<forall>row \<in> set (n_trans w). length row = n_bins cfg)"

text \<open>
  The count matrix has its shape, and every entry is the number of records in \<open>recs\<close> for
  its pair of bins.
\<close>

definition counts_ok :: "config \<Rightarrow> world \<Rightarrow> tdat list \<Rightarrow> bool" where
  "counts_ok cfg w recs \<longleftrightarrow>
     length (n_trans w) = n_bins cfg \<and> (\<forall>row \<in> set (n_trans w). length row = n_bins cfg)
     \<and> (\<forall>i < n_bins cfg. \<forall>j < n_bins cfg. n_trans w ! i ! j = count_records i j recs)"

text \<open>Every record has a duration of at least 1 and at most its timepoint.\<close>

definition durations_ok :: "tdat list \<Rightarrow> bool" where
  "durations_ok td \<longleftrightarrow> (\<forall>r \<in> set td. 1 \<le> duration r \<and> duration r \<le> timepoint' r)"

section \<open>Evaluation rules\<close>

lemma list_update_numeral: "(x # xs)[numeral k := v] = x # xs[pred_numeral k := v]"
  by (simp add: numeral_eq_Suc)

lemma replicate_numeral: "replicate (numeral k) x = x # replicate (pred_numeral k) x"
  by (simp add: numeral_eq_Suc)

lemma upt_numeral_eval: "[i..<numeral n] = (if i < numeral n then i # [Suc i..<numeral n] else [])"
  by (rule upt_rec)

lemma Suc_Suc_0: "Suc (Suc 0) = 2"
  by simp

lemma take_empty_buffer: "take k (empty_buffer n) = empty_buffer (min k n)"
  by (simp add: empty_buffer_def min.commute)

lemma drop_empty_buffer: "drop k (empty_buffer n) = empty_buffer (n - k)"
  by (simp add: empty_buffer_def)

lemma length_empty_buffer: "length (empty_buffer n) = n"
  by (simp add: empty_buffer_def)

lemma empty_buffer_0: "empty_buffer 0 = []"
  by (simp add: empty_buffer_def)

lemmas model_defs = start_accumulation_def continue_accumulation_def accumulate_transitions_def
  update_cursor_def crossing_event_def record_crossing_def complete_transitions_def
  record_transition_data_def flush_transition_data_def clear_state_def clear_def init_def
  empty_world_def get_state_def set_state_def new_uint_array_def new_uint_matrix_def
  new_float_array_def set_uint_def set_float_def update_column_def mask_select_def
  uint64_neg_def uint64_add_def assign_slice_def resize_def

lemmas eval = model_defs list_update_numeral replicate_numeral upt_numeral_eval Suc_Suc_0
  take_empty_buffer drop_empty_buffer length_empty_buffer empty_buffer_0 Let_def
  raised_def state_after_def emitted_def arr_last_exit_def arr_last_entry_def
  arr_last_completion_def

lemmas eval_cong = let_weak_cong option.case_cong_weak list.case_cong_weak prod.case_cong_weak

section \<open>The scenario\<close>

lemma scenario_emitted:
  "raised scenario_run = None \<and>
   emitted scenario_run =
     [transition 4 1 2 1, transition 6 1 1 3, transition 6 2 1 1,
      transition 7 0 0 6, transition 7 1 0 1, transition 7 2 0 2] \<and>
   last_bin (state_after scenario_run) = Some 0"
  by (simp add: eval scenario_run_def scenario_cfg_def scenario_assignments_def
        scenario_weights_def scenario_pops_def transition_def cong: eval_cong)

text \<open>
  Claim C2, as amended. On a freshly constructed accumulator with three bins, the call of
  \<^verbatim>\<open>start_accumulation\<close> on the scenario returns normally and emits exactly six records:
  \<open>1\<rightarrow>2\<close> at timepoint 4 with duration 1; \<open>1\<rightarrow>1\<close> and \<open>2\<rightarrow>1\<close> at timepoint 6 with durations
  3 and 1; \<open>0\<rightarrow>0\<close>, \<open>1\<rightarrow>0\<close> and \<open>2\<rightarrow>0\<close> at timepoint 7 with durations 6, 1 and 2. The bin the
  trajectory starts in has \<^verbatim>\<open>last_entry\<close> 0, so leaving it completes nothing until it has
  been entered again.
\<close>

theorem scenario_records:
  "raised scenario_run = None \<and>
   emitted scenario_run =
     [transition 4 1 2 1, transition 6 1 1 3, transition 6 2 1 1,
      transition 7 0 0 6, transition 7 1 0 1, transition 7 2 0 2]"
  using scenario_emitted by simp

text \<open>
  The claim as stated fails: no record is emitted at timepoint 2, and no record from bin 0
  to bin 2 is emitted at all.
\<close>

theorem scenario_no_record_at_2:
  "2 \<notin> set (map timepoint' (emitted scenario_run)) \<and>
   (0, 2) \<notin> set (zip (map initial_bin (emitted scenario_run))
                       (map final_bin (emitted scenario_run)))"
  using scenario_emitted by (simp add: transition_def)

section \<open>One crossing\<close>

lemma mask_select_map: "mask_select xs (map P xs) = filter P xs"
  by (induction xs) (auto simp: mask_select_def)

lemma record_crossing_matrices:
  "uint_matrices (snd (record_crossing cfg c w)) = uint_matrices w \<and>
   last_completion (snd (record_crossing cfg c w)) = last_completion w \<and>
   n_trans (snd (record_crossing cfg c w)) = n_trans w"
  by (cases c) (simp add: record_crossing_def set_uint_def set_float_def Let_def)

lemma record_crossing_ok:
  "fst (record_crossing cfg (t, wt, ibin, fbin, pops) w) = None \<longleftrightarrow>
     ibin < length pops \<and> ibin < n_bins cfg \<and> fbin < n_bins cfg"
  by (auto simp add: record_crossing_def Let_def)

lemma crossing_event_ok:
  "raised (crossing_event cfg blk c w) = None \<longleftrightarrow> fst (record_crossing cfg c w) = None"
  by (simp add: raised_def crossing_event_def Let_def)

lemma crossing_event_emitted:
  "fst (record_crossing cfg c w) = None \<Longrightarrow>
   emitted (crossing_event cfg blk c w) =
     snd (complete_transitions cfg blk c (snd (record_crossing cfg c w)))"
  by (simp add: emitted_def crossing_event_def Let_def)

lemma initial_bins_raw:
  "map initial_bin (snd (complete_transitions cfg blk (t, wt, ibin, fbin, pops) w)) =
     filter (\<lambda>i. 0 < arr_last_exit w ! i
                 \<and> map (\<lambda>row. row ! fbin) (arr_last_completion w) ! i < arr_last_entry w ! i)
       [0..<n_bins cfg]"
  by (simp add: complete_transitions_def Let_def mask_select_map arr_last_exit_def
        arr_last_entry_def arr_last_completion_def o_def)

lemma initial_bins:
  assumes "length (arr_last_completion w) = n_bins cfg"
  shows "map initial_bin (snd (complete_transitions cfg blk (t, wt, ibin, fbin, pops) w)) =
     filter (\<lambda>i. 0 < arr_last_exit w ! i \<and> arr_last_completion w ! i ! fbin < arr_last_entry w ! i)
       [0..<n_bins cfg]"
  unfolding initial_bins_raw using assms by (intro filter_cong) auto

lemma final_bins:
  "r \<in> set (snd (complete_transitions cfg blk (t, wt, ibin, fbin, pops) w)) \<Longrightarrow>
   final_bin r = fbin \<and> timepoint' r = t \<and> block r = blk"
  by (auto simp add: complete_transitions_def Let_def)

lemma crossing_event_initial_bins:
  assumes "length (arr_last_completion w) = n_bins cfg"
    and "raised (crossing_event cfg blk (t, wt, ibin, fbin, pops) w) = None"
  shows "initial_bin ` set (emitted (crossing_event cfg blk (t, wt, ibin, fbin, pops) w))
       = {i. i < n_bins cfg
            \<and> 0 < arr_last_exit (snd (record_crossing cfg (t, wt, ibin, fbin, pops) w)) ! i
            \<and> arr_last_completion (snd (record_crossing cfg (t, wt, ibin, fbin, pops) w)) ! i ! fbin
                < arr_last_entry (snd (record_crossing cfg (t, wt, ibin, fbin, pops) w)) ! i}"
proof -
  let ?c = "(t, wt, ibin, fbin, pops)"
  let ?w1 = "snd (record_crossing cfg ?c w)"
  have ok: "fst (record_crossing cfg ?c w) = None"
    using assms(2) by (simp add: crossing_event_ok)
  have len: "length (arr_last_completion ?w1) = n_bins cfg"
    using assms(1) record_crossing_matrices [of cfg ?c w] by (simp add: arr_last_completion_def)
  have "initial_bin ` set (emitted (crossing_event cfg blk ?c w))
      = set (map initial_bin (snd (complete_transitions cfg blk ?c ?w1)))"
    by (simp add: crossing_event_emitted [OF ok])
  also have "\<dots> = {i. i < n_bins cfg \<and> 0 < arr_last_exit ?w1 ! i
                    \<and> arr_last_completion ?w1 ! i ! fbin < arr_last_entry ?w1 ! i}"
    unfolding initial_bins [OF len] by auto
  finally show ?thesis .
qed

text \<open>
  Claim C1, as amended. For a crossing into \<open>fbin\<close> at timepoint \<open>trans_ti\<close> that the loop
  processes without an exception, the bins \<open>i\<close> for which a record \<open>i \<rightarrow> fbin\<close> is emitted
  are exactly the bins below \<open>n_bins\<close> with \<open>last_exit[i] > 0\<close> and
  \<open>last_entry[i] > last_completion[i][fbin]\<close>, read after the crossing has been recorded:
  the entry time compared is that of the initial bin \<open>i\<close>, not that of \<open>fbin\<close>. The crossing
  emits no record into another bin or for another timepoint, and one record for each of
  these bins, in increasing order.
\<close>

theorem completed_bins:
  assumes "length (arr_last_completion w) = n_bins cfg"
    and "raised (crossing_event cfg blk (trans_ti, weight, ibin, fbin, ibinpops) w) = None"
  shows "{i. \<exists>r \<in> set (emitted (crossing_event cfg blk (trans_ti, weight, ibin, fbin, ibinpops) w)).
              initial_bin r = i \<and> final_bin r = fbin \<and> timepoint' r = trans_ti}
       = {i. i < n_bins cfg
            \<and> 0 < arr_last_exit (snd (record_crossing cfg (trans_ti, weight, ibin, fbin, ibinpops) w)) ! i
            \<and> arr_last_completion (snd (record_crossing cfg (trans_ti, weight, ibin, fbin, ibinpops) w)) ! i ! fbin
                < arr_last_entry (snd (record_crossing cfg (trans_ti, weight, ibin, fbin, ibinpops) w)) ! i}
       \<and> final_bin ` set (emitted (crossing_event cfg blk (trans_ti, weight, ibin, fbin, ibinpops) w))
           \<subseteq> {fbin}
       \<and> timepoint' ` set (emitted (crossing_event cfg blk (trans_ti, weight, ibin, fbin, ibinpops) w))
           \<subseteq> {trans_ti}
       \<and> map initial_bin (emitted (crossing_event cfg blk (trans_ti, weight, ibin, fbin, ibinpops) w))
           = filter (\<lambda>i. 0 < arr_last_exit (snd (record_crossing cfg
                                (trans_ti, weight, ibin, fbin, ibinpops) w)) ! i
                        \<and> arr_last_completion (snd (record_crossing cfg
                                (trans_ti, weight, ibin, fbin, ibinpops) w)) ! i ! fbin
                            < arr_last_entry (snd (record_crossing cfg
                                (trans_ti, weight, ibin, fbin, ibinpops) w)) ! i)
               [0..<n_bins cfg]"
proof -
  let ?c = "(trans_ti, weight, ibin, fbin, ibinpops)"
  let ?new = "emitted (crossing_event cfg blk ?c w)"
  let ?w1 = "snd (record_crossing cfg ?c w)"
  have ok: "fst (record_crossing cfg ?c w) = None"
    using assms(2) by (simp add: crossing_event_ok)
  have len: "length (arr_last_completion ?w1) = n_bins cfg"
    using assms(1) record_crossing_matrices [of cfg ?c w] by (simp add: arr_last_completion_def)
  have fin: "final_bin r = fbin \<and> timepoint' r = trans_ti" if "r \<in> set ?new" for r
    using that final_bins [of r cfg blk trans_ti weight ibin fbin ibinpops]
    by (simp add: crossing_event_emitted [OF ok])
  have "{i. \<exists>r \<in> set ?new. initial_bin r = i \<and> final_bin r = fbin \<and> timepoint' r = trans_ti}
      = initial_bin ` set ?new"
    using fin by auto
  then have g1: "{i. \<exists>r \<in> set ?new. initial_bin r = i \<and> final_bin r = fbin \<and> timepoint' r = trans_ti}
      = {i. i < n_bins cfg \<and> 0 < arr_last_exit ?w1 ! i
            \<and> arr_last_completion ?w1 ! i ! fbin < arr_last_entry ?w1 ! i}"
    by (simp only: crossing_event_initial_bins [OF assms])
  have g2: "final_bin ` set ?new \<subseteq> {fbin}"
    using fin by auto
  have g3: "timepoint' ` set ?new \<subseteq> {trans_ti}"
    using fin by auto
  have g4: "map initial_bin ?new
      = filter (\<lambda>i. 0 < arr_last_exit ?w1 ! i
                   \<and> arr_last_completion ?w1 ! i ! fbin < arr_last_entry ?w1 ! i) [0..<n_bins cfg]"
    by (simp only: crossing_event_emitted [OF ok] initial_bins [OF len])
  from g1 g2 g3 g4 show ?thesis by (intro conjI)
qed

text \<open>
  The theorem at the third crossing of the scenario, from bin 2 into bin 1 at timepoint 6:
  the bins selected are 1 and 2.
\<close>

theorem completed_bins_witness:
  "length (arr_last_completion (scenario_state 2)) = n_bins scenario_cfg \<and>
   raised (crossing_event scenario_cfg 0 (6, Fl 1, 2, 1, [Fl 0, Fl 0, Fl 1]) (scenario_state 2)) = None \<and>
   {i. \<exists>r \<in> set (emitted (crossing_event scenario_cfg 0 (6, Fl 1, 2, 1, [Fl 0, Fl 0, Fl 1])
                            (scenario_state 2))).
          initial_bin r = i \<and> final_bin r = 1 \<and> timepoint' r = 6}
     = {i. i < n_bins scenario_cfg
          \<and> 0 < arr_last_exit (snd (record_crossing scenario_cfg (6, Fl 1, 2, 1, [Fl 0, Fl 0, Fl 1])
                                       (scenario_state 2))) ! i
          \<and> arr_last_completion (snd (record_crossing scenario_cfg (6, Fl 1, 2, 1, [Fl 0, Fl 0, Fl 1])
                                        (scenario_state 2))) ! i ! 1
              < arr_last_entry (snd (record_crossing scenario_cfg (6, Fl 1, 2, 1, [Fl 0, Fl 0, Fl 1])
                                       (scenario_state 2))) ! i} \<and>
   map initial_bin (emitted (crossing_event scenario_cfg 0 (6, Fl 1, 2, 1, [Fl 0, Fl 0, Fl 1])
                               (scenario_state 2))) = [1, 2] \<and>
   map final_bin (emitted (crossing_event scenario_cfg 0 (6, Fl 1, 2, 1, [Fl 0, Fl 0, Fl 1])
                             (scenario_state 2))) = [1, 1]"
proof -
  have h1: "length (arr_last_completion (scenario_state 2)) = n_bins scenario_cfg"
    by (simp add: eval scenario_state_def scenario_crossings_def scenario_cfg_def cong: eval_cong)
  have h2: "raised (crossing_event scenario_cfg 0 (6, Fl 1, 2, 1, [Fl 0, Fl 0, Fl 1])
                      (scenario_state 2)) = None"
    by (simp add: crossing_event_ok record_crossing_ok scenario_cfg_def)
  have h3: "map initial_bin (emitted (crossing_event scenario_cfg 0 (6, Fl 1, 2, 1, [Fl 0, Fl 0, Fl 1])
                               (scenario_state 2))) = [1, 2]"
    by (simp add: eval emitted_def scenario_state_def scenario_crossings_def scenario_cfg_def
          cong: eval_cong)
  have h4: "map final_bin (emitted (crossing_event scenario_cfg 0 (6, Fl 1, 2, 1, [Fl 0, Fl 0, Fl 1])
                             (scenario_state 2))) = [1, 1]"
    by (simp add: eval emitted_def scenario_state_def scenario_crossings_def scenario_cfg_def
          cong: eval_cong)
  from completed_bins [OF h1 h2, THEN conjunct1] h1 h2 h3 h4 show ?thesis
    by (intro conjI)
qed

text \<open>
  The claim as stated fails at the first crossing of the scenario, from bin 0 into bin 1 at
  timepoint 2: bin 0 has \<open>last_exit[0] > 0\<close> and \<open>last_entry[1] > last_completion[0][1]\<close>, and no
  record is emitted.
\<close>

theorem completed_bins_counterexample:
  "emitted (crossing_event scenario_cfg 0 (2, Fl 1, 0, 1, [Fl 1, Fl 0, Fl 0]) (scenario_state 0)) = [] \<and>
   0 < arr_last_exit (snd (record_crossing scenario_cfg (2, Fl 1, 0, 1, [Fl 1, Fl 0, Fl 0])
                             (scenario_state 0))) ! 0 \<and>
   arr_last_completion (snd (record_crossing scenario_cfg (2, Fl 1, 0, 1, [Fl 1, Fl 0, Fl 0])
                               (scenario_state 0))) ! 0 ! 1
     < arr_last_entry (snd (record_crossing scenario_cfg (2, Fl 1, 0, 1, [Fl 1, Fl 0, Fl 0])
                              (scenario_state 0))) ! 1"
  by (simp add: eval scenario_state_def scenario_crossings_def scenario_cfg_def cong: eval_cong)

text \<open>
  Claim C3, as amended. A crossing into \<open>fbin\<close> emits a record whose initial bin is its
  final bin exactly when, after the crossing has been recorded, \<open>last_exit[fbin] > 0\<close> and
  \<open>last_entry[fbin] > last_completion[fbin][fbin]\<close>: when the trajectory comes back to a bin
  it has left before.
\<close>

theorem self_transition_iff:
  assumes "length (arr_last_completion w) = n_bins cfg"
    and "raised (crossing_event cfg blk (trans_ti, weight, ibin, fbin, ibinpops) w) = None"
  shows "(\<exists>r \<in> set (emitted (crossing_event cfg blk (trans_ti, weight, ibin, fbin, ibinpops) w)).
            initial_bin r = final_bin r)
       \<longleftrightarrow> 0 < arr_last_exit (snd (record_crossing cfg (trans_ti, weight, ibin, fbin, ibinpops) w)) ! fbin
            \<and> arr_last_completion (snd (record_crossing cfg (trans_ti, weight, ibin, fbin, ibinpops) w)) ! fbin ! fbin
                < arr_last_entry (snd (record_crossing cfg (trans_ti, weight, ibin, fbin, ibinpops) w)) ! fbin"
proof -
  let ?c = "(trans_ti, weight, ibin, fbin, ibinpops)"
  let ?new = "emitted (crossing_event cfg blk ?c w)"
  have ok: "fst (record_crossing cfg ?c w) = None"
    using assms(2) by (simp add: crossing_event_ok)
  then have fbin: "fbin < n_bins cfg"
    by (simp add: record_crossing_ok)
  have fin: "final_bin r = fbin" if "r \<in> set ?new" for r
    using that final_bins [of r cfg blk trans_ti weight ibin fbin ibinpops]
    by (simp add: crossing_event_emitted [OF ok])
  have "(\<exists>r \<in> set ?new. initial_bin r = final_bin r) \<longleftrightarrow> fbin \<in> initial_bin ` set ?new"
    using fin by force
  then show ?thesis
    using fbin by (simp add: crossing_event_initial_bins [OF assms])
qed

theorem self_transition_iff_witness:
  "length (arr_last_completion (scenario_state 2)) = n_bins scenario_cfg \<and>
   raised (crossing_event scenario_cfg 0 (6, Fl 1, 2, 1, [Fl 0, Fl 0, Fl 1]) (scenario_state 2)) = None \<and>
   ((\<exists>r \<in> set (emitted (crossing_event scenario_cfg 0 (6, Fl 1, 2, 1, [Fl 0, Fl 0, Fl 1])
                           (scenario_state 2))). initial_bin r = final_bin r)
     \<longleftrightarrow> 0 < arr_last_exit (snd (record_crossing scenario_cfg (6, Fl 1, 2, 1, [Fl 0, Fl 0, Fl 1])
                                     (scenario_state 2))) ! 1
          \<and> arr_last_completion (snd (record_crossing scenario_cfg (6, Fl 1, 2, 1, [Fl 0, Fl 0, Fl 1])
                                        (scenario_state 2))) ! 1 ! 1
              < arr_last_entry (snd (record_crossing scenario_cfg (6, Fl 1, 2, 1, [Fl 0, Fl 0, Fl 1])
                                       (scenario_state 2))) ! 1)"
proof -
  have h1: "length (arr_last_completion (scenario_state 2)) = n_bins scenario_cfg"
    by (simp add: eval scenario_state_def scenario_crossings_def scenario_cfg_def cong: eval_cong)
  have h2: "raised (crossing_event scenario_cfg 0 (6, Fl 1, 2, 1, [Fl 0, Fl 0, Fl 1])
                      (scenario_state 2)) = None"
    by (simp add: crossing_event_ok record_crossing_ok scenario_cfg_def)
  from self_transition_iff [OF h1 h2] h1 h2 show ?thesis by simp
qed

text \<open>
  The claim as stated fails on the scenario: the record emitted at timepoint 6 for the
  return to bin 1 has initial bin 1 and final bin 1.
\<close>

theorem self_transition_counterexample:
  "transition 6 1 1 3 \<in> set (emitted scenario_run) \<and>
   initial_bin (transition 6 1 1 3) = final_bin (transition 6 1 1 3)"
  using scenario_emitted by (simp add: transition_def)

section \<open>Snapshots\<close>

text \<open>
  Claim C4. \<^verbatim>\<open>get_state\<close> copies the arrays, \<^verbatim>\<open>set_state\<close> does not: after
  \<^verbatim>\<open>set_state(s)\<close> the accumulator works on the arrays of \<open>s\<close>. Here the snapshot taken at
  the branch point holds \<open>last_exit = [1, 0]\<close> and \<open>last_entry = [0, 1]\<close> when it is restored,
  and \<open>last_exit = [1, 2]\<close> and \<open>last_entry = [2, 1]\<close> after the accumulator has continued
  from it.
\<close>

theorem restored_snapshot_changes:
  "snapshot_contents branch_restored branch_snapshot =
     ([0, 1], [1, 0], [[0, 0], [0, 0]], [Fl 1, Fl 0], [Fl 1, Fl 0], 1, Some 1, Some (Fl 1)) \<and>
   snapshot_contents branch_continued branch_snapshot =
     ([2, 1], [1, 2], [[2, 0], [2, 0]], [Fl 1, Fl 1], [Fl 1, Fl 1], 1, Some 1, Some (Fl 1))"
  by (simp add: eval branch_continued_def branch_restored_def branch_snapshot_def
        branch_point_def branch_cfg_def snapshot_contents_def cong: eval_cong)

section \<open>The write buffer\<close>

text \<open>
  Claim C5. When \<^verbatim>\<open>tdat\<close> grows beyond a tenth of the capacity the loop hands it to
  \<^verbatim>\<open>record_transition_data\<close> and goes on appending to the same list, so the records
  already written are written again. With capacity 1 the four records of the trajectory
  \<open>[0, 1, 0, 1]\<close> reach the dataset as ten; with capacity 100 as four.
\<close>

theorem written_depends_on_capacity:
  "written 1 = Some [transition 2 0 0 2, transition 2 1 0 1,
                     transition 2 0 0 2, transition 2 1 0 1, transition 3 0 1 1, transition 3 1 1 2,
                     transition 2 0 0 2, transition 2 1 0 1, transition 3 0 1 1, transition 3 1 1 2] \<and>
   written 100 = Some [transition 2 0 0 2, transition 2 1 0 1, transition 3 0 1 1, transition 3 1 1 2]"
  by (simp add: eval written_def capacity_cfg_def transition_def cong: eval_cong)

section \<open>Calls that fail\<close>

lemma continue_unset:
  "last_bin w = None \<Longrightarrow> continue_accumulation cfg a ws ps blk w = (Some TypeError, w, [])"
  by (simp add: continue_accumulation_def)

text \<open>
  Claim C9, as amended. When \<^verbatim>\<open>last_bin\<close> is unset, \<^verbatim>\<open>continue_accumulation\<close> raises the
  \<^verbatim>\<open>TypeError\<close> of storing \<^verbatim>\<open>None\<close> into the integer array \<^verbatim>\<open>aug_assign\<close>, before it has
  changed anything or emitted a record. The class has no error of its own for this case.
\<close>

theorem continue_without_cursor:
  assumes "last_bin w = None"
  shows "continue_accumulation cfg assignments weights bin_pops blk w = (Some TypeError, w, [])"
  using assms by (rule continue_unset)

theorem continue_without_cursor_witness:
  "last_bin (init scenario_cfg) = None \<and>
   continue_accumulation scenario_cfg [1] [Fl 1] [[Fl 0, Fl 1, Fl 0]] 0 (init scenario_cfg)
     = (Some TypeError, init scenario_cfg, [])"
proof -
  have h: "last_bin (init scenario_cfg) = None"
    by (simp add: eval scenario_cfg_def)
  from continue_without_cursor [OF h] h show ?thesis by simp
qed

text \<open>
  The exception of a call on a freshly constructed accumulator is numpy's \<^verbatim>\<open>TypeError\<close>.
\<close>

theorem continue_without_cursor_counterexample:
  "raised (continue_accumulation scenario_cfg [1] [Fl 1] [[Fl 0, Fl 1, Fl 0]] 0 (init scenario_cfg))
     = Some TypeError"
  by (simp add: raised_def continue_unset eval scenario_cfg_def)

text \<open>
  Claim C10, as amended. \<^verbatim>\<open>start_accumulation\<close> on a zero-length segment raises
  \<^verbatim>\<open>IndexError\<close>. \<^verbatim>\<open>continue_accumulation\<close> on a zero-length segment raises too:
  \<^verbatim>\<open>TypeError\<close> when the cursor is unset, else \<^verbatim>\<open>IndexError\<close> from \<^verbatim>\<open>bin_pops[0]\<close>; it
  leaves the accumulator as it was and emits nothing.
\<close>

theorem zero_length_segment:
  "raised (start_accumulation cfg [] weights bin_pops blk w) = Some IndexError \<and>
   continue_accumulation cfg [] weights [] blk w
     = (Some (if last_bin w = None then TypeError else IndexError), w, [])"
  by (simp add: start_accumulation_def accumulate_transitions_def raised_def update_cursor_def
        Let_def mask_select_def continue_accumulation_def split: option.splits)

text \<open>
  The claim as stated fails after the scenario: the cursor is set, and continuing with a
  zero-length segment raises \<^verbatim>\<open>IndexError\<close>.
\<close>

theorem zero_length_continue_counterexample:
  "raised (continue_accumulation scenario_cfg [] [] [] 0 (state_after scenario_run))
     = Some IndexError"
  using scenario_emitted by (auto simp add: raised_def continue_accumulation_def)

text \<open>
  A segment of one sample has no pair of neighbours: the mask \<^verbatim>\<open>trans_occur\<close> is empty and
  selects nothing, whatever the lengths of \<^verbatim>\<open>weights\<close> and \<^verbatim>\<open>bin_pops\<close>, so the call
  returns normally once the cursor update finds its population entry. The same holds for
  \<^verbatim>\<open>continue_accumulation\<close> with no sample and one population row.
\<close>

lemma single_sample_segment:
  assumes "bin_pops \<noteq> []" and "a < length (last bin_pops)"
  shows "raised (start_accumulation cfg [a] weights bin_pops blk w) = None
       \<and> emitted (start_accumulation cfg [a] weights bin_pops blk w) = []
       \<and> timepoint (state_after (start_accumulation cfg [a] weights bin_pops blk w)) = 0
       \<and> last_bin (state_after (start_accumulation cfg [a] weights bin_pops blk w)) = Some a
       \<and> last_bin_pop (state_after (start_accumulation cfg [a] weights bin_pops blk w))
           = Some (last bin_pops ! a)"
  using assms
  by (simp add: start_accumulation_def accumulate_transitions_def raised_def emitted_def
        state_after_def update_cursor_def mask_select_def Let_def)

lemma population_row_without_sample:
  assumes "last_bin w = Some lb" and "lb < length row"
  shows "raised (continue_accumulation cfg [] weights [row] blk w) = None
       \<and> emitted (continue_accumulation cfg [] weights [row] blk w) = []
       \<and> timepoint (state_after (continue_accumulation cfg [] weights [row] blk w)) = timepoint w
       \<and> last_bin (state_after (continue_accumulation cfg [] weights [row] blk w)) = Some lb
       \<and> last_bin_pop (state_after (continue_accumulation cfg [] weights [row] blk w))
           = Some (row ! lb)"
  using assms
  by (simp add: continue_accumulation_def accumulate_transitions_def raised_def emitted_def
        state_after_def update_cursor_def mask_select_def Let_def)

section \<open>The count matrix\<close>

lemma length_update_column [simp]: "length (update_column f msk j m) = length m"
  by (simp add: update_column_def)

lemma nth_update_column:
  "i < length m \<Longrightarrow>
   update_column f msk j m ! i = (if msk ! i then (m ! i)[j := f (m ! i ! j)] else m ! i)"
  by (simp add: update_column_def)

lemma rows_update_column:
  assumes "\<forall>row \<in> set m. length row = n"
  shows "\<forall>row \<in> set (update_column f msk j m). length row = n"
  using assms by (auto simp add: update_column_def)

lemma count_filter_upt:
  "length (filter (\<lambda>k. k = i \<and> P k) [0..<n]) = (if i < n \<and> P i then 1 else 0)"
  by (induction n) auto

lemma count_records_append [simp]:
  "count_records i j (xs @ ys) = count_records i j xs + count_records i j ys"
  by (simp add: count_records_def)

lemma count_records_Nil [simp]: "count_records i j [] = 0"
  by (simp add: count_records_def)

lemma complete_transitions_counts:
  assumes "length (n_trans w) = n_bins cfg" "\<forall>row \<in> set (n_trans w). length row = n_bins cfg"
    and "i < n_bins cfg" "j < n_bins cfg"
  shows "n_trans (fst (complete_transitions cfg blk c w)) ! i ! j
       = n_trans w ! i ! j + count_records i j (snd (complete_transitions cfg blk c w))"
proof -
  obtain t wt ibin fbin pops where c: "c = (t, wt, ibin, fbin, pops)"
    by (cases c)
  define P where "P = (\<lambda>i. 0 < arr_last_exit w ! i
      \<and> map (\<lambda>row. row ! fbin) (arr_last_completion w) ! i < arr_last_entry w ! i)"
  have nt: "n_trans (fst (complete_transitions cfg blk c w))
      = update_column Suc (map P [0..<n_bins cfg]) fbin (n_trans w)"
    by (simp add: c complete_transitions_def Let_def P_def arr_last_exit_def arr_last_entry_def
          arr_last_completion_def)
  have "count_records i j (snd (complete_transitions cfg blk c w))
      = length (filter (\<lambda>k. k = i \<and> fbin = j) (filter P [0..<n_bins cfg]))"
    by (simp add: c complete_transitions_def Let_def mask_select_map count_records_def P_def
          arr_last_exit_def arr_last_entry_def arr_last_completion_def filter_map o_def)
  also have "\<dots> = (if fbin = j then length (filter (\<lambda>k. k = i \<and> P k) [0..<n_bins cfg]) else 0)"
    by (auto intro: arg_cong [where f = length] filter_cong)
  also have "\<dots> = (if fbin = j \<and> P i then 1 else 0)"
    using assms(3) by (simp add: count_filter_upt)
  finally have cnt: "count_records i j (snd (complete_transitions cfg blk c w))
      = (if fbin = j \<and> P i then 1 else 0)" .
  have "length (n_trans w ! i) = n_bins cfg"
    using assms by simp
  then show ?thesis
    using assms by (simp add: nt cnt nth_update_column nth_list_update)
qed

lemma complete_transitions_shape:
  assumes "length (n_trans w) = n_bins cfg" "\<forall>row \<in> set (n_trans w). length row = n_bins cfg"
  shows "length (n_trans (fst (complete_transitions cfg blk c w))) = n_bins cfg
       \<and> (\<forall>row \<in> set (n_trans (fst (complete_transitions cfg blk c w))). length row = n_bins cfg)"
  using assms rows_update_column [of "n_trans w" "n_bins cfg"]
  by (cases c) (simp add: complete_transitions_def Let_def)

lemma crossing_event_counts:
  assumes "shape cfg w"
  shows "shape cfg (fst (snd (crossing_event cfg blk c w)))"
    and "i < n_bins cfg \<Longrightarrow> j < n_bins cfg \<Longrightarrow>
         n_trans (fst (snd (crossing_event cfg blk c w))) ! i ! j
           = n_trans w ! i ! j + count_records i j (snd (snd (crossing_event cfg blk c w)))"
proof -
  let ?w1 = "snd (record_crossing cfg c w)"
  have s1: "shape cfg ?w1"
    using assms record_crossing_matrices [of cfg c w] by (simp add: shape_def)
  show "shape cfg (fst (snd (crossing_event cfg blk c w)))"
    using s1 complete_transitions_shape [of ?w1 cfg blk c]
    by (simp add: crossing_event_def Let_def shape_def)
  show "n_trans (fst (snd (crossing_event cfg blk c w))) ! i ! j
           = n_trans w ! i ! j + count_records i j (snd (snd (crossing_event cfg blk c w)))"
    if "i < n_bins cfg" "j < n_bins cfg"
    using s1 that complete_transitions_counts [of ?w1 cfg i j blk c]
      record_crossing_matrices [of cfg c w]
    by (simp add: crossing_event_def Let_def shape_def)
qed

lemma n_trans_flush [simp]: "n_trans (flush_transition_data w) = n_trans w"
  by (simp add: flush_transition_data_def Let_def split: option.splits)

lemma n_trans_record [simp]: "n_trans (record_transition_data cfg td w) = n_trans w"
  by (simp add: record_transition_data_def Let_def split: option.splits)

lemma shape_record [simp]: "shape cfg (record_transition_data cfg' td w) = shape cfg w"
  by (simp add: shape_def)

lemma crossing_loop_counts:
  assumes "shape cfg w"
    and "\<forall>i < n_bins cfg. \<forall>j < n_bins cfg. n_trans w ! i ! j = k i j + count_records i j td"
  shows "shape cfg (fst (snd (crossing_loop cfg blk cs w td)))
       \<and> (\<forall>i < n_bins cfg. \<forall>j < n_bins cfg.
            n_trans (fst (snd (crossing_loop cfg blk cs w td))) ! i ! j
              = k i j + count_records i j (snd (snd (crossing_loop cfg blk cs w td))))"
  using assms
proof (induction cs arbitrary: w td)
  case Nil
  then show ?case by simp
next
  case (Cons c cs)
  let ?r = "crossing_event cfg blk c w"
  show ?case
  proof (cases "fst ?r = None")
    case True
    let ?td = "td @ snd (snd ?r)"
    let ?w = "if tdat_buffersize cfg < 10 * length ?td
              then record_transition_data cfg ?td (fst (snd ?r)) else fst (snd ?r)"
    have sh: "shape cfg ?w"
      using crossing_event_counts(1) [OF Cons.prems(1)] by simp
    have cnt: "\<forall>i < n_bins cfg. \<forall>j < n_bins cfg. n_trans ?w ! i ! j = k i j + count_records i j ?td"
      using crossing_event_counts(2) [OF Cons.prems(1)] Cons.prems(2) by simp
    from Cons.IH [OF sh cnt] True show ?thesis
      by (simp add: Let_def)
  next
    case False
    have nil: "snd (snd ?r) = []"
      using False by (auto simp add: crossing_event_def Let_def)
    have res: "crossing_loop cfg blk (c # cs) w td = (fst ?r, fst (snd ?r), td)"
      using False by (cases "fst ?r") (simp_all add: Let_def)
    have sh: "shape cfg (fst (snd ?r))"
      by (rule crossing_event_counts(1) [OF Cons.prems(1)])
    have "\<forall>i < n_bins cfg. \<forall>j < n_bins cfg. n_trans (fst (snd ?r)) ! i ! j = k i j + count_records i j td"
      using crossing_event_counts(2) [OF Cons.prems(1), where blk = blk and c = c] Cons.prems(2) nil
      by simp
    with sh show ?thesis
      unfolding res by simp
  qed
qed

lemma n_trans_update_cursor [simp]: "n_trans (snd (update_cursor ts a ps w)) = n_trans w"
  by (simp add: update_cursor_def)

lemma accumulate_counts:
  assumes "shape cfg w"
  shows "shape cfg (fst (snd (accumulate_transitions cfg ts a ws ps blk w)))
       \<and> (\<forall>i < n_bins cfg. \<forall>j < n_bins cfg.
            n_trans (fst (snd (accumulate_transitions cfg ts a ws ps blk w))) ! i ! j
              = n_trans w ! i ! j + count_records i j (snd (snd (accumulate_transitions cfg ts a ws ps blk w))))"
proof -
  have "\<forall>i < n_bins cfg. \<forall>j < n_bins cfg. n_trans w ! i ! j = n_trans w ! i ! j + count_records i j []"
    by simp
  from crossing_loop_counts [OF assms this] assms show ?thesis
    by (simp add: accumulate_transitions_def Let_def shape_def)
qed

lemma n_trans_clear_state [simp]: "n_trans (clear_state cfg w) = n_trans w"
  by (simp add: clear_state_def new_uint_array_def new_uint_matrix_def new_float_array_def)

lemma n_trans_get_state [simp]: "n_trans (snd (get_state w)) = n_trans w"
  by (simp add: get_state_def new_uint_array_def new_uint_matrix_def new_float_array_def)

lemma n_trans_set_state [simp]: "n_trans (set_state s w) = n_trans w"
  by (simp add: set_state_def)

lemma start_counts:
  assumes "shape cfg w"
  shows "shape cfg (fst (snd (start_accumulation cfg a ws ps blk w)))
       \<and> (\<forall>i < n_bins cfg. \<forall>j < n_bins cfg.
            n_trans (fst (snd (start_accumulation cfg a ws ps blk w))) ! i ! j
              = n_trans w ! i ! j + count_records i j (snd (snd (start_accumulation cfg a ws ps blk w))))"
proof -
  have "shape cfg (clear_state cfg w)"
    using assms by (simp add: shape_def)
  from accumulate_counts [OF this] show ?thesis
    by (simp add: start_accumulation_def)
qed

lemma continue_counts:
  assumes "shape cfg w"
  shows "shape cfg (fst (snd (continue_accumulation cfg a ws ps blk w)))
       \<and> (\<forall>i < n_bins cfg. \<forall>j < n_bins cfg.
            n_trans (fst (snd (continue_accumulation cfg a ws ps blk w))) ! i ! j
              = n_trans w ! i ! j + count_records i j (snd (snd (continue_accumulation cfg a ws ps blk w))))"
  using assms accumulate_counts [OF assms]
  by (simp add: continue_accumulation_def Let_def split: option.splits list.splits)

lemma counts_ok_shape: "counts_ok cfg w recs \<longleftrightarrow>
   shape cfg w \<and> (\<forall>i < n_bins cfg. \<forall>j < n_bins cfg. n_trans w ! i ! j = count_records i j recs)"
  by (auto simp add: counts_ok_def shape_def)

lemma call_step_counts:
  assumes "counts_ok cfg (fst s) (snd (snd s))"
  shows "counts_ok cfg (fst (call_step cfg s c)) (snd (snd (call_step cfg s c)))
       \<and> (\<exists>new. snd (snd (call_step cfg s c)) = snd (snd s) @ new)"
proof -
  obtain w snaps recs where s: "s = (w, snaps, recs)"
    by (cases s)
  have sh: "shape cfg w"
    using assms by (simp add: s counts_ok_shape)
  show ?thesis
  proof (cases c)
    case (Start a ws ps blk)
    with assms start_counts [OF sh, of a ws ps blk] show ?thesis
      by (simp add: s counts_ok_shape Let_def)
  next
    case (Continue a ws ps blk)
    with assms continue_counts [OF sh, of a ws ps blk] show ?thesis
      by (simp add: s counts_ok_shape Let_def)
  next
    case ClearState
    with assms show ?thesis by (simp add: s counts_ok_def)
  next
    case GetState
    with assms show ?thesis by (simp add: s counts_ok_def Let_def)
  next
    case (SetState k)
    with assms show ?thesis by (simp add: s counts_ok_def)
  qed
qed

lemma counts_ok_init: "counts_ok cfg (init cfg) []"
  by (simp add: counts_ok_def init_def clear_def)

lemma foldl_counts:
  assumes "counts_ok cfg (fst s) (snd (snd s))"
  shows "counts_ok cfg (fst (foldl (call_step cfg) s calls)) (snd (snd (foldl (call_step cfg) s calls)))
       \<and> (\<exists>new. snd (snd (foldl (call_step cfg) s calls)) = snd (snd s) @ new)"
  using assms
proof (induction calls arbitrary: s)
  case Nil
  then show ?case by simp
next
  case (Cons c calls)
  from call_step_counts [OF Cons.prems, of c]
  obtain new where ok: "counts_ok cfg (fst (call_step cfg s c)) (snd (snd (call_step cfg s c)))"
    and new: "snd (snd (call_step cfg s c)) = snd (snd s) @ new"
    by blast
  from Cons.IH [OF ok] new show ?case by auto
qed

lemma run_counts: "counts_ok cfg (fst (run cfg calls)) (snd (snd (run cfg calls)))"
  using foldl_counts [of cfg "(init cfg, [], [])" calls] counts_ok_init [of cfg]
  by (simp add: run_def)

lemma run_grows:
  "\<exists>new. snd (snd (run cfg (calls @ later))) = snd (snd (run cfg calls)) @ new"
  using foldl_counts [of cfg "run cfg calls" later] run_counts [of cfg calls]
  by (simp add: run_def)

text \<open>
  Claim C7. After any sequence of calls of \<^verbatim>\<open>start_accumulation\<close>,
  \<^verbatim>\<open>continue_accumulation\<close>, \<^verbatim>\<open>clear_state\<close>, \<^verbatim>\<open>get_state\<close> and \<^verbatim>\<open>set_state\<close> on a freshly
  constructed accumulator, every entry \<open>n_trans[i][j]\<close> is the number of records emitted so
  far with initial bin \<open>i\<close> and final bin \<open>j\<close>, and no further call makes an entry smaller.
  A record is emitted when the loop appends it to \<^verbatim>\<open>tdat\<close>.
\<close>

theorem n_trans_counts:
  assumes "i < n_bins cfg" and "j < n_bins cfg"
  shows "n_trans (fst (run cfg calls)) ! i ! j = count_records i j (snd (snd (run cfg calls)))
       \<and> n_trans (fst (run cfg calls)) ! i ! j \<le> n_trans (fst (run cfg (calls @ later))) ! i ! j"
proof -
  obtain new where new: "snd (snd (run cfg (calls @ later))) = snd (snd (run cfg calls)) @ new"
    using run_grows by blast
  from run_counts [of cfg calls] run_counts [of cfg "calls @ later"] assms new
  show ?thesis by (simp add: counts_ok_def)
qed

theorem n_trans_counts_witness:
  "(1::nat) < n_bins scenario_cfg \<and> (2::nat) < n_bins scenario_cfg \<and>
   n_trans (fst (run scenario_cfg
      [Start scenario_assignments scenario_weights scenario_pops 0, GetState, SetState 0,
       Continue [2] [Fl 1] [[Fl 0, Fl 0, Fl 1]] 1])) ! 1 ! 2
     = count_records 1 2 (snd (snd (run scenario_cfg
      [Start scenario_assignments scenario_weights scenario_pops 0, GetState, SetState 0,
       Continue [2] [Fl 1] [[Fl 0, Fl 0, Fl 1]] 1]))) \<and>
   n_trans (fst (run scenario_cfg
      [Start scenario_assignments scenario_weights scenario_pops 0, GetState, SetState 0,
       Continue [2] [Fl 1] [[Fl 0, Fl 0, Fl 1]] 1])) ! 1 ! 2
     \<le> n_trans (fst (run scenario_cfg
      ([Start scenario_assignments scenario_weights scenario_pops 0, GetState, SetState 0,
        Continue [2] [Fl 1] [[Fl 0, Fl 0, Fl 1]] 1] @ [ClearState, GetState]))) ! 1 ! 2"
proof -
  have h1: "(1::nat) < n_bins scenario_cfg" and h2: "(2::nat) < n_bins scenario_cfg"
    by (simp_all add: scenario_cfg_def)
  from n_trans_counts [OF h1 h2] h1 h2 show ?thesis by blast
qed

section \<open>Durations\<close>

lemma wrap_duration:
  fixes M :: nat
  assumes "0 < x" "x \<le> t" "t < M"
  shows "(((M - x mod M) mod M + t) mod M + 1) mod M = t - x + 1"
proof -
  have x: "x mod M = x" using assms by simp
  have n: "(M - x) mod M = M - x" using assms by simp
  have "M - x + t = M + (t - x)" using assms by simp
  then have "(M - x + t) mod M = (t - x) mod M" by simp
  also have "\<dots> = t - x" using assms by simp
  finally have a: "(M - x + t) mod M = t - x" .
  have "t - x + 1 < M" using assms by simp
  then show ?thesis by (simp add: x n a)
qed

lemma uint64_duration:
  assumes "0 < x" "x \<le> t" "t < 2 ^ 64"
  shows "uint64_add (uint64_add (uint64_neg x) t) 1 = t - x + 1"
  unfolding uint64_add_def uint64_neg_def using assms by (rule wrap_duration)

lemma record_crossing_exits:
  assumes "\<forall>x \<in> set (arr_last_exit w). x \<le> t"
  shows "length (arr_last_exit (snd (record_crossing cfg (t, wt, ibin, fbin, pops) w))) = length (arr_last_exit w)
       \<and> (\<forall>x \<in> set (arr_last_exit (snd (record_crossing cfg (t, wt, ibin, fbin, pops) w))). x \<le> t)"
proof -
  have upd: "\<forall>x \<in> set (xs[k := t]). x \<le> t" if "\<forall>x \<in> set xs. x \<le> t" for xs :: "nat list" and k
    using that set_update_subset_insert [of xs k t] by auto
  show ?thesis
    using assms upd [of "uint_arrays w (last_exit w)"]
      upd [of "(uint_arrays w (last_exit w))[ibin := t]"]
    by (simp add: record_crossing_def Let_def set_uint_def set_float_def arr_last_exit_def)
qed

lemma complete_transitions_exits:
  "arr_last_exit (fst (complete_transitions cfg blk c w)) = arr_last_exit w"
  by (cases c) (simp add: complete_transitions_def Let_def arr_last_exit_def)

lemma complete_transitions_durations:
  assumes "length (arr_last_exit w) = n_bins cfg"
    and "r \<in> set (snd (complete_transitions cfg blk (t, wt, ibin, fbin, pops) w))"
  shows "initial_bin r < n_bins cfg \<and> 0 < arr_last_exit w ! initial_bin r
       \<and> duration r = uint64_add (uint64_add (uint64_neg (arr_last_exit w ! initial_bin r)) t) 1
       \<and> timepoint' r = t"
  using assms
  by (auto simp add: complete_transitions_def Let_def mask_select_map arr_last_exit_def)

lemma durations_ok_append [simp]: "durations_ok (xs @ ys) \<longleftrightarrow> durations_ok xs \<and> durations_ok ys"
  by (auto simp add: durations_ok_def)

lemma durations_ok_Nil [simp]: "durations_ok []"
  by (simp add: durations_ok_def)

lemma crossing_event_durations:
  assumes len: "length (arr_last_exit w) = n_bins cfg"
    and bound: "\<forall>x \<in> set (arr_last_exit w). x \<le> t"
    and t: "t < 2 ^ 64"
  shows "length (arr_last_exit (fst (snd (crossing_event cfg blk (t, wt, ibin, fbin, pops) w)))) = n_bins cfg
       \<and> (\<forall>x \<in> set (arr_last_exit (fst (snd (crossing_event cfg blk (t, wt, ibin, fbin, pops) w)))). x \<le> t)
       \<and> durations_ok (snd (snd (crossing_event cfg blk (t, wt, ibin, fbin, pops) w)))"
proof -
  let ?c = "(t, wt, ibin, fbin, pops)"
  let ?w1 = "snd (record_crossing cfg ?c w)"
  from record_crossing_exits [OF bound, of cfg wt ibin fbin pops] len
  have len1: "length (arr_last_exit ?w1) = n_bins cfg"
    and bound1: "\<forall>x \<in> set (arr_last_exit ?w1). x \<le> t"
    by simp_all
  have "durations_ok (snd (complete_transitions cfg blk ?c ?w1))"
    unfolding durations_ok_def
  proof
    fix r assume r: "r \<in> set (snd (complete_transitions cfg blk ?c ?w1))"
    from complete_transitions_durations [OF len1 r]
    have i: "initial_bin r < n_bins cfg" and pos: "0 < arr_last_exit ?w1 ! initial_bin r"
      and d: "duration r = uint64_add (uint64_add (uint64_neg (arr_last_exit ?w1 ! initial_bin r)) t) 1"
      and tp: "timepoint' r = t"
      by simp_all
    have le: "arr_last_exit ?w1 ! initial_bin r \<le> t"
      using bound1 i len1 by simp
    have "duration r = t - arr_last_exit ?w1 ! initial_bin r + 1"
      unfolding d by (rule uint64_duration [OF pos le t])
    then show "1 \<le> duration r \<and> duration r \<le> timepoint' r"
      using pos le by (simp add: tp)
  qed
  then show ?thesis
    using len1 bound1
    by (simp add: crossing_event_def Let_def complete_transitions_exits)
qed

lemma arr_last_exit_record [simp]:
  "arr_last_exit (record_transition_data cfg td w) = arr_last_exit w"
  by (simp add: record_transition_data_def flush_transition_data_def Let_def arr_last_exit_def
        split: option.splits)

lemma crossing_loop_durations:
  assumes "length (arr_last_exit w) = n_bins cfg"
    and "\<forall>x \<in> set (arr_last_exit w). x \<le> B"
    and "sorted (map fst cs)"
    and "\<forall>c \<in> set cs. B \<le> fst c \<and> fst c \<le> T \<and> fst c < 2 ^ 64"
    and "B \<le> T"
    and "durations_ok td"
  shows "length (arr_last_exit (fst (snd (crossing_loop cfg blk cs w td)))) = n_bins cfg
       \<and> (\<forall>x \<in> set (arr_last_exit (fst (snd (crossing_loop cfg blk cs w td)))). x \<le> T)
       \<and> durations_ok (snd (snd (crossing_loop cfg blk cs w td)))"
  using assms
proof (induction cs arbitrary: w td B)
  case Nil
  then show ?case by auto
next
  case (Cons c cs)
  obtain t wt ibin fbin pops where c: "c = (t, wt, ibin, fbin, pops)"
    by (cases c)
  let ?r = "crossing_event cfg blk c w"
  have t: "B \<le> t" "t \<le> T" "t < 2 ^ 64"
    using Cons.prems(4) by (simp_all add: c)
  have bound: "\<forall>x \<in> set (arr_last_exit w). x \<le> t"
    using Cons.prems(2) t(1) by auto
  from crossing_event_durations [OF Cons.prems(1) bound t(3), of blk wt ibin fbin pops]
  have len1: "length (arr_last_exit (fst (snd ?r))) = n_bins cfg"
    and bound1: "\<forall>x \<in> set (arr_last_exit (fst (snd ?r))). x \<le> t"
    and d1: "durations_ok (snd (snd ?r))"
    by (simp_all add: c)
  show ?case
  proof (cases "fst ?r")
    case None
    let ?td = "td @ snd (snd ?r)"
    let ?w = "if tdat_buffersize cfg < 10 * length ?td
              then record_transition_data cfg ?td (fst (snd ?r)) else fst (snd ?r)"
    have a1: "length (arr_last_exit ?w) = n_bins cfg" using len1 by simp
    have a2: "\<forall>x \<in> set (arr_last_exit ?w). x \<le> t" using bound1 by simp
    have a3: "sorted (map fst cs)" using Cons.prems(3) by simp
    have a4: "\<forall>c \<in> set cs. t \<le> fst c \<and> fst c \<le> T \<and> fst c < 2 ^ 64"
      using Cons.prems(3,4) by (auto simp add: c)
    have a6: "durations_ok ?td" using Cons.prems(6) d1 by simp
    from Cons.IH [OF a1 a2 a3 a4 t(2) a6] None show ?thesis
      by (simp add: Let_def)
  next
    case (Some e)
    then have res: "crossing_loop cfg blk (c # cs) w td = (fst ?r, fst (snd ?r), td)"
      by (simp add: Let_def)
    show ?thesis
      unfolding res using len1 bound1 t(2) Cons.prems(6) by auto
  qed
qed

lemma set_mask_select: "set (mask_select xs m) \<subseteq> set xs"
  by (auto simp add: mask_select_def dest: set_zip_leftD)

lemma sorted_mask_select:
  fixes xs :: "nat list"
  assumes "sorted xs"
  shows "sorted (mask_select xs m)"
proof -
  have "map fst (zip xs m) = take (min (length xs) (length m)) xs"
    by (rule map_fst_zip_take)
  then have "sorted (map fst (zip xs m))"
    using assms by (simp add: sorted_wrt_take)
  then show ?thesis
    unfolding mask_select_def by (rule sorted_filter)
qed

lemma crossing_times:
  fixes ts :: "nat list"
  assumes "sorted ts"
  shows "sorted (map fst (zip (mask_select ts m) ys)) \<and> set (map fst (zip (mask_select ts m) ys)) \<subseteq> set ts"
proof -
  have "map fst (zip (mask_select ts m) ys)
      = take (min (length (mask_select ts m)) (length ys)) (mask_select ts m)"
    by (rule map_fst_zip_take)
  then show ?thesis
    using sorted_mask_select [OF assms, of m] set_mask_select [of ts m]
    by (auto simp add: sorted_wrt_take dest: in_set_takeD)
qed

lemma arr_last_exit_update_cursor [simp]:
  "arr_last_exit (snd (update_cursor ts a ps w)) = arr_last_exit w"
  by (simp add: update_cursor_def arr_last_exit_def)

lemma update_cursor_timepoint:
  "fst (update_cursor ts a ps w) = None \<Longrightarrow> timepoint (snd (update_cursor ts a ps w)) = last ts \<and> ts \<noteq> []"
  by (simp add: update_cursor_def split: if_splits)

lemma accumulate_durations:
  assumes len: "length (arr_last_exit w) = n_bins cfg"
    and bound: "\<forall>x \<in> set (arr_last_exit w). x \<le> T0"
    and lim: "T0 + n \<le> 2 ^ 64"
  shows "durations_ok (snd (snd (accumulate_transitions cfg [T0..<T0 + n] a ws ps blk w)))
       \<and> (fst (accumulate_transitions cfg [T0..<T0 + n] a ws ps blk w) = None
            \<longrightarrow> exits_bounded cfg (fst (snd (accumulate_transitions cfg [T0..<T0 + n] a ws ps blk w))))"
proof -
  let ?ts = "[T0..<T0 + n]"
  let ?occ = "map2 (\<lambda>a b. a \<noteq> b) (tl a) (butlast a)"
  let ?cs = "zip (mask_select (tl ?ts) ?occ) (zip (mask_select (tl ws) ?occ)
               (zip (mask_select (butlast a) ?occ) (zip (mask_select (tl a) ?occ)
                  (mask_select (butlast ps) ?occ))))"
  let ?r = "crossing_loop cfg blk ?cs w []"
  let ?T = "T0 + n - 1"
  have tl: "tl ?ts = [Suc T0..<T0 + n]"
    by (simp add: tl_upt)
  have st: "sorted (tl ?ts)"
    unfolding tl by simp
  have srt: "sorted (map fst ?cs)"
    by (rule conjunct1 [OF crossing_times [OF st]])
  have sub: "set (map fst ?cs) \<subseteq> set (tl ?ts)"
    by (rule conjunct2 [OF crossing_times [OF st]])
  have rng: "\<forall>c \<in> set ?cs. T0 \<le> fst c \<and> fst c \<le> ?T \<and> fst c < 2 ^ 64"
  proof
    fix c assume "c \<in> set ?cs"
    then have "fst c \<in> set (tl ?ts)" using sub by auto
    then show "T0 \<le> fst c \<and> fst c \<le> ?T \<and> fst c < 2 ^ 64"
      using lim unfolding tl by auto
  qed
  show ?thesis
  proof (cases "n = 0")
    case True
    then show ?thesis
      by (simp add: accumulate_transitions_def Let_def update_cursor_def mask_select_def
            split: if_splits)
  next
    case False
    then have BT: "T0 \<le> ?T" by simp
    from crossing_loop_durations [OF len bound srt rng BT durations_ok_Nil, of blk]
    have l: "length (arr_last_exit (fst (snd ?r))) = n_bins cfg"
      and b: "\<forall>x \<in> set (arr_last_exit (fst (snd ?r))). x \<le> ?T"
      and d: "durations_ok (snd (snd ?r))"
      by simp_all
    have last: "last ?ts = ?T"
      using False by (simp add: last_upt)
    show ?thesis
      using l b d last update_cursor_timepoint
      by (auto simp add: accumulate_transitions_def Let_def exits_bounded_def)
  qed
qed

lemma arr_last_exit_clear_state:
  "arr_last_exit (clear_state cfg w) = replicate (n_bins cfg) 0"
  by (simp add: clear_state_def new_uint_array_def new_uint_matrix_def new_float_array_def
        arr_last_exit_def)

text \<open>
  Claim C8, as amended. Every record emitted by \<^verbatim>\<open>start_accumulation\<close> has a duration of
  at least 1, and so has every record emitted by \<^verbatim>\<open>continue_accumulation\<close> on an
  accumulator in which no exit stored in \<^verbatim>\<open>last_exit\<close> is later than the cursor; a call
  that returns normally leaves the accumulator in such a state again. The duration of a
  record for bin \<open>i\<close> emitted at timepoint \<open>t\<close> is \<open>t - last_exit[i] + 1\<close> computed in unsigned
  64-bit arithmetic (lemma \<open>complete_transitions_durations\<close>), which under this condition
  is the number \<open>t - last_exit[i] + 1\<close> (lemma \<open>uint64_duration\<close>), hence at most \<open>t\<close>.
  Timepoints are below \<open>2 ^ 63\<close>, the range of the \<^verbatim>\<open>int64\<close> array that \<^verbatim>\<open>numpy.arange\<close>
  makes of them.
\<close>

theorem duration_positive:
  assumes "exits_bounded cfg w" and "timepoint w + length assignments < 2 ^ 63"
  shows "(\<forall>r \<in> set (emitted (start_accumulation cfg assignments weights bin_pops blk w0)).
            1 \<le> duration r \<and> duration r \<le> timepoint' r)
       \<and> (\<forall>r \<in> set (emitted (continue_accumulation cfg assignments weights bin_pops blk w)).
            1 \<le> duration r \<and> duration r \<le> timepoint' r)
       \<and> (raised (continue_accumulation cfg assignments weights bin_pops blk w) = None
            \<longrightarrow> exits_bounded cfg (state_after (continue_accumulation cfg assignments weights bin_pops blk w)))
       \<and> (raised (start_accumulation cfg assignments weights bin_pops blk w0) = None
            \<longrightarrow> exits_bounded cfg (state_after (start_accumulation cfg assignments weights bin_pops blk w0)))"
proof -
  have lim0: "0 + length assignments \<le> (2 :: nat) ^ 64"
    using assms(2) by simp
  have "durations_ok (emitted (start_accumulation cfg assignments weights bin_pops blk w0))
      \<and> (raised (start_accumulation cfg assignments weights bin_pops blk w0) = None
            \<longrightarrow> exits_bounded cfg (state_after (start_accumulation cfg assignments weights bin_pops blk w0)))"
    using accumulate_durations [of "clear_state cfg w0" cfg 0 "length assignments", OF _ _ lim0]
    by (simp add: start_accumulation_def emitted_def raised_def state_after_def
          arr_last_exit_clear_state)
  moreover
  have lim: "timepoint w + Suc (length assignments) \<le> (2 :: nat) ^ 64"
    using assms(2) by simp
  have len: "length (arr_last_exit w) = n_bins cfg"
    and bound: "\<forall>x \<in> set (arr_last_exit w). x \<le> timepoint w"
    using assms(1) by (simp_all add: exits_bounded_def)
  have "durations_ok (emitted (continue_accumulation cfg assignments weights bin_pops blk w))
      \<and> (raised (continue_accumulation cfg assignments weights bin_pops blk w) = None
            \<longrightarrow> exits_bounded cfg (state_after (continue_accumulation cfg assignments weights bin_pops blk w)))"
    using accumulate_durations [OF len bound lim]
    by (simp add: continue_accumulation_def emitted_def raised_def state_after_def Let_def
          split: option.splits list.splits)
  ultimately show ?thesis
    by (simp add: durations_ok_def)
qed

text \<open>
  The theorem on the trajectory \<open>[0, 1, 0]\<close>, started on a fresh accumulator, and after the
  scenario, where the cursor is at timepoint 7 and \<^verbatim>\<open>last_exit\<close> is \<open>[2, 7, 6]\<close>: the
  scenario is continued with the same three samples.
\<close>

theorem duration_positive_witness:
  "arr_last_exit (state_after scenario_run) = [2, 7, 6] \<and>
   timepoint (state_after scenario_run) = 7 \<and>
   list_all (\<lambda>r. 1 \<le> duration r \<and> duration r \<le> timepoint' r)
     (emitted (start_accumulation scenario_cfg [0, 1, 0] [Fl 1, Fl 1, Fl 1]
                 [[Fl 1, Fl 0, Fl 0], [Fl 0, Fl 1, Fl 0], [Fl 1, Fl 0, Fl 0]] 1
                 (init scenario_cfg))) \<and>
   list_all (\<lambda>r. 1 \<le> duration r \<and> duration r \<le> timepoint' r)
     (emitted (continue_accumulation scenario_cfg [0, 1, 0] [Fl 1, Fl 1, Fl 1]
                 [[Fl 1, Fl 0, Fl 0], [Fl 0, Fl 1, Fl 0], [Fl 1, Fl 0, Fl 0]] 1
                 (state_after scenario_run))) \<and>
   map duration
     (emitted (start_accumulation scenario_cfg [0, 1, 0] [Fl 1, Fl 1, Fl 1]
                 [[Fl 1, Fl 0, Fl 0], [Fl 0, Fl 1, Fl 0], [Fl 1, Fl 0, Fl 0]] 1
                 (init scenario_cfg))) = [2, 1]"
proof -
  have s: "arr_last_exit (state_after scenario_run) = [2, 7, 6] \<and>
           timepoint (state_after scenario_run) = 7"
    by (simp add: eval scenario_run_def scenario_cfg_def scenario_assignments_def
          scenario_weights_def scenario_pops_def cong: eval_cong)
  have h1: "exits_bounded scenario_cfg (state_after scenario_run)"
    using s by (simp add: exits_bounded_def scenario_cfg_def)
  have h2: "timepoint (state_after scenario_run) + length [0, 1, 0 :: nat] < 2 ^ 63"
    using s by simp
  have d: "map duration
     (emitted (start_accumulation scenario_cfg [0, 1, 0] [Fl 1, Fl 1, Fl 1]
                 [[Fl 1, Fl 0, Fl 0], [Fl 0, Fl 1, Fl 0], [Fl 1, Fl 0, Fl 0]] 1
                 (init scenario_cfg))) = [2, 1]"
    by (simp add: eval scenario_cfg_def uint64_neg_def uint64_add_def cong: eval_cong)
  from duration_positive [OF h1 h2] s d show ?thesis
    by (simp add: list_all_iff)
qed

text \<open>
  The claim as stated fails. After \<^verbatim>\<open>set_state\<close> has restored one snapshot for the second
  time, \<^verbatim>\<open>last_exit\<close> is \<open>[1, 2, 0]\<close> and the cursor is at timepoint 0; the crossing from bin
  0 into bin 1 at timepoint 1 then completes a transition from bin 1, left at timepoint 2,
  with the duration \<open>1 - 2 + 1 = 0\<close>. No call of the sequence raises. The same record is
  emitted when the exit at timepoint 2 has been stored by a call that raised before it
  moved the cursor.
\<close>

theorem duration_zero_counterexample:
  "arr_last_exit revisit_state = [1, 2, 0] \<and> timepoint revisit_state = 0 \<and>
   raised revisit_run = None \<and>
   emitted revisit_run = [transition 1 1 1 0] \<and>
   map duration (emitted revisit_run) = [0] \<and>
   arr_last_exit failed_state = [1, 2, 0] \<and> timepoint failed_state = 0 \<and>
   raised failed_run = None \<and>
   map duration (emitted failed_run) = [0]"
proof -
  have a: "arr_last_exit revisit_state = [1, 2, 0] \<and> timepoint revisit_state = 0 \<and>
           raised revisit_run = None \<and> emitted revisit_run = [transition 1 1 1 0]"
    by (simp add: eval revisit_run_def revisit_state_def revisit_calls_def run_def
          scenario_cfg_def transition_def uint64_neg_def uint64_add_def cong: eval_cong)
  have b: "arr_last_exit failed_state = [1, 2, 0] \<and> timepoint failed_state = 0 \<and>
           raised failed_run = None \<and> map duration (emitted failed_run) = [0]"
    by (simp add: eval failed_run_def failed_state_def failed_calls_def run_def
          scenario_cfg_def uint64_neg_def uint64_add_def cong: eval_cong)
  from a b show ?thesis
    by (simp add: transition_def)
qed

section \<open>Continuation\<close>

lemma detection_state_eq:
  "detection_state w = detection_state v \<longleftrightarrow>
     last_entry w = last_entry v \<and> last_exit w = last_exit v
     \<and> last_completion w = last_completion v \<and> weight_last_exit w = weight_last_exit v
     \<and> bin_pops_last_exit w = bin_pops_last_exit v \<and> n_trans w = n_trans v
     \<and> uint_arrays w = uint_arrays v \<and> uint_matrices w = uint_matrices v
     \<and> float_arrays w = float_arrays v \<and> next_addr w = next_addr v"
  by (auto simp add: detection_state_def)

lemma record_crossing_detection:
  assumes "detection_state w = detection_state v"
  shows "fst (record_crossing cfg c w) = fst (record_crossing cfg c v)
       \<and> detection_state (snd (record_crossing cfg c w)) = detection_state (snd (record_crossing cfg c v))"
  using assms
  by (cases c) (simp add: detection_state_eq record_crossing_def set_uint_def set_float_def Let_def)

lemma complete_transitions_detection:
  assumes "detection_state w = detection_state v"
  shows "detection_state (fst (complete_transitions cfg blk c w))
           = detection_state (fst (complete_transitions cfg blk c v))
       \<and> snd (complete_transitions cfg blk c w) = snd (complete_transitions cfg blk c v)"
  using assms
  by (cases c) (simp add: detection_state_eq complete_transitions_def Let_def)

lemma crossing_event_detection:
  assumes "detection_state w = detection_state v"
  shows "fst (crossing_event cfg blk c w) = fst (crossing_event cfg blk c v)
       \<and> detection_state (fst (snd (crossing_event cfg blk c w)))
           = detection_state (fst (snd (crossing_event cfg blk c v)))
       \<and> snd (snd (crossing_event cfg blk c w)) = snd (snd (crossing_event cfg blk c v))"
  using record_crossing_detection [OF assms, of cfg c]
    complete_transitions_detection [of "snd (record_crossing cfg c w)" "snd (record_crossing cfg c v)" cfg blk c]
  by (simp add: crossing_event_def Let_def)

lemma detection_state_record [simp]:
  "detection_state (record_transition_data cfg td w) = detection_state w"
  by (simp add: record_transition_data_def flush_transition_data_def Let_def detection_state_def
        split: option.splits)

lemma crossing_loop_error:
  "fst (crossing_event cfg blk c w) \<noteq> None \<Longrightarrow>
   crossing_loop cfg blk (c # cs) w td
     = (fst (crossing_event cfg blk c w), fst (snd (crossing_event cfg blk c w)), td)"
  by (cases "fst (crossing_event cfg blk c w)") (simp_all add: Let_def)

lemma crossing_loop_detection:
  assumes "detection_state w = detection_state v"
  shows "fst (crossing_loop cfg blk cs w td) = fst (crossing_loop cfg blk cs v [])
       \<and> detection_state (fst (snd (crossing_loop cfg blk cs w td)))
           = detection_state (fst (snd (crossing_loop cfg blk cs v [])))
       \<and> snd (snd (crossing_loop cfg blk cs w td)) = td @ snd (snd (crossing_loop cfg blk cs v []))"
  using assms
proof (induction cs arbitrary: w v td)
  case Nil
  then show ?case by simp
next
  case (Cons c cs)
  let ?r = "crossing_event cfg blk c w"
  let ?s = "crossing_event cfg blk c v"
  from crossing_event_detection [OF Cons.prems, of cfg blk c]
  have e: "fst ?r = fst ?s"
    and d: "detection_state (fst (snd ?r)) = detection_state (fst (snd ?s))"
    and n: "snd (snd ?r) = snd (snd ?s)"
    by simp_all
  show ?case
  proof (cases "fst ?r = None")
    case True
    let ?new = "snd (snd ?s)"
    let ?W = "if tdat_buffersize cfg < 10 * length (td @ ?new)
              then record_transition_data cfg (td @ ?new) (fst (snd ?r)) else fst (snd ?r)"
    let ?V = "if tdat_buffersize cfg < 10 * length ([] @ ?new)
              then record_transition_data cfg ([] @ ?new) (fst (snd ?s)) else fst (snd ?s)"
    have l: "crossing_loop cfg blk (c # cs) w td = crossing_loop cfg blk cs ?W (td @ ?new)"
      using True by (simp add: Let_def n)
    have r: "crossing_loop cfg blk (c # cs) v [] = crossing_loop cfg blk cs ?V ([] @ ?new)"
      using True e by (simp add: Let_def)
    have WV: "detection_state ?W = detection_state ?V"
      using d by simp
    from Cons.IH [OF WV, of "td @ ?new"] Cons.IH [of ?V ?V "[] @ ?new"]
    show ?thesis
      unfolding l r by simp
  next
    case False
    then obtain x where x: "fst ?r = Some x" by auto
    then have y: "fst ?s = Some x" using e by simp
    show ?thesis
      using x y d by (simp add: Let_def)
  qed
qed

lemma crossing_event_pops:
  assumes "ibin < length pops \<longleftrightarrow> ibin < length pops'" and "pops ! ibin = pops' ! ibin"
  shows "crossing_event cfg blk (t, wt, ibin, fbin, pops) w
       = crossing_event cfg blk (t, wt, ibin, fbin, pops') w"
proof -
  have r: "record_crossing cfg (t, wt, ibin, fbin, pops) w
         = record_crossing cfg (t, wt, ibin, fbin, pops') w"
    using assms by (simp add: record_crossing_def)
  have c: "complete_transitions cfg blk (t, wt, ibin, fbin, pops) v
         = complete_transitions cfg blk (t, wt, ibin, fbin, pops') v" for v
    by (simp add: complete_transitions_def)
  show ?thesis
    unfolding crossing_event_def r c ..
qed

lemma crossing_loop_append:
  "crossing_loop cfg blk (cs1 @ cs2) w td =
     (let r = crossing_loop cfg blk cs1 w td
      in if fst r = None then crossing_loop cfg blk cs2 (fst (snd r)) (snd (snd r)) else r)"
proof (induction cs1 arbitrary: w td)
  case Nil
  then show ?case by simp
next
  case (Cons c cs1)
  show ?case
  proof (cases "fst (crossing_event cfg blk c w) = None")
    case True
    then show ?thesis
      using Cons.IH by (simp add: Let_def)
  next
    case False
    then obtain x where "fst (crossing_event cfg blk c w) = Some x" by auto
    then show ?thesis
      by (simp add: Let_def)
  qed
qed

lemma mask_select_Cons [simp]:
  "mask_select (x # xs) (b # m) = (if b then x # mask_select xs m else mask_select xs m)"
  by (simp add: mask_select_def)

lemma mask_select_Nil [simp]: "mask_select xs [] = []"
  by (simp add: mask_select_def)

lemma crossings_of_single [simp]: "crossings_of ts [a] ws ps = []"
  by (simp add: crossings_of_def)

lemma crossings_of_step:
  "crossings_of (t0 # t1 # ts) (a0 # a1 # as) (w0 # w1 # ws) (p0 # p1 # ps) =
     (if a1 \<noteq> a0 then [(t1, w1, a0, a1, p0)] else [])
     @ crossings_of (t1 # ts) (a1 # as) (w1 # ws) (p1 # ps)"
  by (simp add: crossings_of_def Let_def)

lemma crossings_of_append:
  assumes "length ts1 = length a1" "length a1 = length w1" "length w1 = length p1"
  shows "a1 \<noteq> [] \<longrightarrow>
     crossings_of (ts1 @ ts2) (a1 @ a2) (w1 @ w2) (p1 @ p2) =
       crossings_of ts1 a1 w1 p1
       @ crossings_of (last ts1 # ts2) (last a1 # a2) (last w1 # w2) (last p1 # p2)"
  using assms
proof (induction ts1 a1 w1 p1 rule: list_induct4)
  case Nil
  then show ?case by simp
next
  case (Cons t ts a as w ws p ps)
  show ?case
  proof (cases as)
    case Nil
    with Cons.hyps show ?thesis by simp
  next
    case (Cons a' as')
    with Cons.hyps obtain t' ts' w' ws' p' ps'
      where "ts = t' # ts'" "ws = w' # ws'" "ps = p' # ps'"
      by (cases ts; cases ws; cases ps) auto
    with Cons Cons.IH show ?thesis
      by (simp add: crossings_of_step)
  qed
qed

lemma crossings_of_members:
  assumes "(t, wt, ibin, fbin, pops) \<in> set (crossings_of ts a ws ps)"
  shows "ibin \<in> set a \<and> fbin \<in> set a \<and> pops \<in> set ps"
proof -
  let ?occ = "map2 (\<lambda>a b. a \<noteq> b) (tl a) (butlast a)"
  from assms have "(wt, ibin, fbin, pops) \<in> set (zip (mask_select (tl ws) ?occ)
      (zip (mask_select (butlast a) ?occ) (zip (mask_select (tl a) ?occ)
         (mask_select (butlast ps) ?occ))))"
    unfolding crossings_of_def Let_def by (rule set_zip_rightD)
  then have 2: "(ibin, fbin, pops) \<in> set (zip (mask_select (butlast a) ?occ)
      (zip (mask_select (tl a) ?occ) (mask_select (butlast ps) ?occ)))"
    by (rule set_zip_rightD)
  then have 3: "(fbin, pops) \<in> set (zip (mask_select (tl a) ?occ) (mask_select (butlast ps) ?occ))"
    by (rule set_zip_rightD)
  have "ibin \<in> set (mask_select (butlast a) ?occ)"
    using 2 by (rule set_zip_leftD)
  then have i: "ibin \<in> set (butlast a)"
    using set_mask_select by fastforce
  have "fbin \<in> set (mask_select (tl a) ?occ)"
    using 3 by (rule set_zip_leftD)
  then have f: "fbin \<in> set (tl a)"
    using set_mask_select by fastforce
  have "pops \<in> set (mask_select (butlast ps) ?occ)"
    using 3 by (rule set_zip_rightD)
  then have p: "pops \<in> set (butlast ps)"
    using set_mask_select by fastforce
  have "fbin \<in> set a"
    using f by (cases a) auto
  then show ?thesis
    using i p by (auto dest: in_set_butlastD)
qed

lemma crossing_loop_ok:
  assumes "\<forall>c \<in> set cs. fst (record_crossing cfg c w0) = None"
  shows "fst (crossing_loop cfg blk cs w td) = None"
  using assms
proof (induction cs arbitrary: w td)
  case Nil
  then show ?case by simp
next
  case (Cons c cs)
  obtain t wt ibin fbin pops where c: "c = (t, wt, ibin, fbin, pops)"
    by (cases c)
  have "fst (record_crossing cfg c w0) = None"
    using Cons.prems by simp
  then have "fst (record_crossing cfg c w) = None"
    by (simp add: c record_crossing_ok)
  then have "fst (crossing_event cfg blk c w) = None"
    by (simp add: crossing_event_def Let_def)
  with Cons show ?case
    by (simp add: Let_def)
qed

lemma crossings_of_ok:
  assumes "\<forall>b \<in> set a. b < n_bins cfg" "\<forall>row \<in> set ps. length row = n_bins cfg"
  shows "\<forall>c \<in> set (crossings_of ts a ws ps). fst (record_crossing cfg c w0) = None"
proof
  fix c assume c: "c \<in> set (crossings_of ts a ws ps)"
  obtain t wt ibin fbin pops where e: "c = (t, wt, ibin, fbin, pops)"
    by (cases c)
  from crossings_of_members [of t wt ibin fbin pops ts a ws ps] c assms
  show "fst (record_crossing cfg c w0) = None"
    by (auto simp add: e record_crossing_ok)
qed

lemma accumulate_crossings_of:
  assumes "length ts = length a" "length ws = length a" "length ps = length a"
  shows "accumulate_transitions cfg ts a ws ps blk w =
     (let r = crossing_loop cfg blk (crossings_of ts a ws ps) w []
      in if fst r = None then
           (let u = update_cursor ts a ps (record_transition_data cfg (snd (snd r)) (fst (snd r)))
            in (fst u, snd u, snd (snd r)))
         else r)"
  using assms by (simp add: accumulate_transitions_def crossings_of_def Let_def)

lemma crossing_loop_head:
  assumes "a0 < length p \<longleftrightarrow> a0 < length p'" and "p ! a0 = p' ! a0"
    and "length ts = Suc (length a2)" "length w2 = length a2" "length p2 = length a2"
  shows "crossing_loop cfg blk (crossings_of ts (a0 # a2) (x # w2) (p # p2)) w td
       = crossing_loop cfg blk (crossings_of ts (a0 # a2) (y # w2) (p' # p2)) w td"
proof (cases a2)
  case Nil
  then show ?thesis by simp
next
  case (Cons a as)
  with assms obtain t0 t1 ts' wt ws q qs
    where "ts = t0 # t1 # ts'" "w2 = wt # ws" "p2 = q # qs"
    by (cases ts; cases "tl ts"; cases w2; cases p2) auto
  with Cons show ?thesis
    using crossing_event_pops [OF assms(1,2)]
    by (simp add: crossings_of_step Let_def)
qed

lemma detection_state_update_cursor [simp]:
  "detection_state (snd (update_cursor ts a ps w)) = detection_state w"
  by (simp add: update_cursor_def detection_state_def)

lemma detection_state_cursor [simp]:
  "detection_state (w\<lparr>timepoint := t, last_bin := b, last_bin_pop := p\<rparr>) = detection_state w"
  by (simp add: detection_state_def)

lemma update_cursor_ok:
  assumes "ts \<noteq> []" "a \<noteq> []" "ps \<noteq> []" "last a < length (last ps)"
  shows "update_cursor ts a ps w
       = (None, w\<lparr>timepoint := last ts, last_bin := Some (last a),
                   last_bin_pop := Some (last ps ! last a)\<rparr>)"
  using assms by (simp add: update_cursor_def)

lemma core_detection:
  "core w = core v \<longleftrightarrow>
     detection_state w = detection_state v \<and> timepoint w = timepoint v
     \<and> last_bin w = last_bin v \<and> last_bin_pop w = last_bin_pop v"
  by (auto simp add: core_def detection_state_def)

lemma accumulate_ok:
  assumes "chunk_ok cfg a ws ps" and "length ts = length a"
  shows "accumulate_transitions cfg ts a ws ps blk w =
     (None,
      (record_transition_data cfg (snd (snd (crossing_loop cfg blk (crossings_of ts a ws ps) w [])))
         (fst (snd (crossing_loop cfg blk (crossings_of ts a ws ps) w []))))
        \<lparr>timepoint := last ts, last_bin := Some (last a), last_bin_pop := Some (last ps ! last a)\<rparr>,
      snd (snd (crossing_loop cfg blk (crossings_of ts a ws ps) w [])))"
proof -
  have a: "a \<noteq> []" "length ws = length a" "length ps = length a"
    "\<forall>b \<in> set a. b < n_bins cfg" "\<forall>row \<in> set ps. length row = n_bins cfg"
    using assms(1) by (simp_all add: chunk_ok_def)
  have ok: "fst (crossing_loop cfg blk (crossings_of ts a ws ps) w []) = None"
    by (rule crossing_loop_ok [OF crossings_of_ok [OF a(4,5)]])
  have ne: "ts \<noteq> []" "ps \<noteq> []"
    using a assms(2) by auto
  have "last a < length (last ps)"
    using a ne by simp
  from update_cursor_ok [OF ne(1) a(1) ne(2) this] ok show ?thesis
    by (simp add: accumulate_crossings_of [OF assms(2) a(2,3)] Let_def)
qed

text \<open>
  Claim C6. For two well-formed segments (each with at least one sample), calling
  \<^verbatim>\<open>start_accumulation\<close> on the first and \<^verbatim>\<open>continue_accumulation\<close> on the second gives
  what one call of \<^verbatim>\<open>start_accumulation\<close> on their concatenation gives: all three calls
  return normally, the records emitted by the two calls, one after the other, are the
  records emitted by the single call, and the two final states agree in everything but
  the write buffer and the output dataset: count matrix, cursor, array references and
  the store with all \<^verbatim>\<open>last_*\<close> arrays. The calls are given the same block number.
\<close>

theorem continuation_equivalence:
  assumes "chunk_ok cfg a1 w1 p1" and "chunk_ok cfg a2 w2 p2"
  shows "raised (start_accumulation cfg a1 w1 p1 blk w) = None
       \<and> raised (continue_accumulation cfg a2 w2 p2 blk
                    (state_after (start_accumulation cfg a1 w1 p1 blk w))) = None
       \<and> raised (start_accumulation cfg (a1 @ a2) (w1 @ w2) (p1 @ p2) blk w) = None
       \<and> emitted (start_accumulation cfg a1 w1 p1 blk w)
           @ emitted (continue_accumulation cfg a2 w2 p2 blk
                        (state_after (start_accumulation cfg a1 w1 p1 blk w)))
           = emitted (start_accumulation cfg (a1 @ a2) (w1 @ w2) (p1 @ p2) blk w)
       \<and> core (state_after (continue_accumulation cfg a2 w2 p2 blk
                                (state_after (start_accumulation cfg a1 w1 p1 blk w))))
           = core (state_after (start_accumulation cfg (a1 @ a2) (w1 @ w2) (p1 @ p2) blk w))"
proof -
  let ?n1 = "length a1" and ?n2 = "length a2"
  let ?W0 = "clear_state cfg w"
  have c1: "a1 \<noteq> []" "length w1 = ?n1" "length p1 = ?n1"
    "\<forall>b \<in> set a1. b < n_bins cfg" "\<forall>row \<in> set p1. length row = n_bins cfg"
    using assms(1) by (simp_all add: chunk_ok_def)
  have c2: "a2 \<noteq> []" "length w2 = ?n2" "length p2 = ?n2"
    "\<forall>b \<in> set a2. b < n_bins cfg" "\<forall>row \<in> set p2. length row = n_bins cfg"
    using assms(2) by (simp_all add: chunk_ok_def)
  have p1: "p1 \<noteq> []" and p2: "p2 \<noteq> []"
    using c1 c2 by auto
  let ?lb = "last a1"
  have lb: "?lb < n_bins cfg"
    using c1 by simp
  have lastp1: "length (last p1) = n_bins cfg"
    using c1 p1 by simp
  \<comment> \<open>the first call\<close>
  let ?cs1 = "crossings_of [0..<?n1] a1 w1 p1"
  let ?R1 = "crossing_loop cfg blk ?cs1 ?W0 []"
  let ?WA = "fst (snd ?R1)" and ?td1 = "snd (snd ?R1)"
  let ?W1 = "(record_transition_data cfg ?td1 ?WA)
               \<lparr>timepoint := last [0..<?n1], last_bin := Some ?lb,
                 last_bin_pop := Some (last p1 ! ?lb)\<rparr>"
  have r1: "start_accumulation cfg a1 w1 p1 blk w = (None, ?W1, ?td1)"
    unfolding start_accumulation_def by (rule accumulate_ok [OF assms(1)]) simp
  have ok1: "fst ?R1 = None"
    by (rule crossing_loop_ok [OF crossings_of_ok [OF c1(4,5)]])
  have dsW1: "detection_state ?WA = detection_state ?W1"
    by simp
  have T: "last [0..<?n1] = ?n1 - 1"
    using c1(1) by (simp add: last_upt)
  \<comment> \<open>the second call\<close>
  obtain row rest where row: "p2 = row # rest"
    using p2 by (cases p2) auto
  have rowlen: "length row = n_bins cfg"
    using c2(5) row by simp
  let ?row0 = "(replicate (length row) (Fl 0))[?lb := last p1 ! ?lb]"
  let ?ts2 = "[?n1 - 1..<?n1 - 1 + length (?lb # a2)]"
  have aug: "chunk_ok cfg (?lb # a2) (Fl 0 # w2) (?row0 # p2)"
    using c2 lb rowlen by (simp add: chunk_ok_def)
  let ?cs2' = "crossings_of ?ts2 (?lb # a2) (Fl 0 # w2) (?row0 # p2)"
  let ?R2 = "crossing_loop cfg blk ?cs2' ?W1 []"
  let ?W2 = "(record_transition_data cfg (snd (snd ?R2)) (fst (snd ?R2)))
               \<lparr>timepoint := last ?ts2, last_bin := Some (last (?lb # a2)),
                 last_bin_pop := Some (last (?row0 # p2) ! last (?lb # a2))\<rparr>"
  have "continue_accumulation cfg a2 w2 p2 blk ?W1
      = accumulate_transitions cfg ?ts2 (?lb # a2) (Fl 0 # w2) (?row0 # p2) blk ?W1"
    using lb rowlen by (simp add: continue_accumulation_def row Let_def T)
  also have "\<dots> = (None, ?W2, snd (snd ?R2))"
    by (rule accumulate_ok [OF aug]) simp
  finally have r2: "continue_accumulation cfg a2 w2 p2 blk ?W1 = (None, ?W2, snd (snd ?R2))" .
  \<comment> \<open>the single call\<close>
  have both: "chunk_ok cfg (a1 @ a2) (w1 @ w2) (p1 @ p2)"
    using c1 c2 by (auto simp add: chunk_ok_def)
  let ?cs = "crossings_of [0..<length (a1 @ a2)] (a1 @ a2) (w1 @ w2) (p1 @ p2)"
  let ?R = "crossing_loop cfg blk ?cs ?W0 []"
  let ?W = "(record_transition_data cfg (snd (snd ?R)) (fst (snd ?R)))
               \<lparr>timepoint := last [0..<length (a1 @ a2)], last_bin := Some (last (a1 @ a2)),
                 last_bin_pop := Some (last (p1 @ p2) ! last (a1 @ a2))\<rparr>"
  have r: "start_accumulation cfg (a1 @ a2) (w1 @ w2) (p1 @ p2) blk w = (None, ?W, snd (snd ?R))"
    unfolding start_accumulation_def by (rule accumulate_ok [OF both]) simp
  \<comment> \<open>the crossings of the single call\<close>
  let ?cs2 = "crossings_of (last [0..<?n1] # [?n1..<?n1 + ?n2]) (?lb # a2) (last w1 # w2) (last p1 # p2)"
  have upt: "[0..<length (a1 @ a2)] = [0..<?n1] @ [?n1..<?n1 + ?n2]"
    by (simp only: length_append upt_add_eq_append [OF le0])
  have "?cs = ?cs1 @ ?cs2"
    unfolding upt by (rule crossings_of_append [THEN mp]) (simp_all add: c1)
  moreover
  have n1: "0 < ?n1"
    using c1(1) by simp
  have eq: "?n1 - 1 + length (?lb # a2) = ?n1 + ?n2"
    using n1 by simp
  have lt: "?n1 - 1 < ?n1 + ?n2"
    using n1 by arith
  have S: "Suc (?n1 - 1) = ?n1"
    using n1 by simp
  have cons: "[?n1 - 1..<?n1 + ?n2] = (?n1 - 1) # [?n1..<?n1 + ?n2]"
    using upt_conv_Cons [OF lt] by (simp only: S)
  have ts2: "last [0..<?n1] # [?n1..<?n1 + ?n2] = ?ts2"
    by (simp only: eq T cons)
  ultimately have cs: "?cs = ?cs1 @ crossings_of ?ts2 (?lb # a2) (last w1 # w2) (last p1 # p2)"
    by simp
  have head: "crossing_loop cfg blk (crossings_of ?ts2 (?lb # a2) (last w1 # w2) (last p1 # p2)) v td
      = crossing_loop cfg blk ?cs2' v td" for v td
    by (rule crossing_loop_head) (use lb rowlen lastp1 c2 in simp_all)
  have "?R = crossing_loop cfg blk
               (crossings_of ?ts2 (?lb # a2) (last w1 # w2) (last p1 # p2)) ?WA ?td1"
    unfolding cs crossing_loop_append Let_def by (simp only: ok1 simp_thms if_True)
  then have R: "?R = crossing_loop cfg blk ?cs2' ?WA ?td1"
    by (simp only: head)
  from crossing_loop_detection [OF dsW1, of cfg blk ?cs2' ?td1]
  have e: "fst ?R = fst ?R2"
    and d: "detection_state (fst (snd ?R)) = detection_state (fst (snd ?R2))"
    and t: "snd (snd ?R) = ?td1 @ snd (snd ?R2)"
    unfolding R by simp_all
  have cur: "last [0..<length (a1 @ a2)] = last ?ts2"
    unfolding eq using n1 lt by (simp add: last_upt)
  have C: "core ?W2 = core ?W"
    using d c2(1) p2 cur by (simp add: core_detection)
  have s1: "state_after (start_accumulation cfg a1 w1 p1 blk w) = ?W1"
    by (simp only: r1 state_after_def fst_conv snd_conv)
  have g1: "raised (start_accumulation cfg a1 w1 p1 blk w) = None"
    by (simp only: r1 raised_def fst_conv)
  have g2: "raised (continue_accumulation cfg a2 w2 p2 blk
                      (state_after (start_accumulation cfg a1 w1 p1 blk w))) = None"
    unfolding s1 by (simp only: r2 raised_def fst_conv)
  have g3: "raised (start_accumulation cfg (a1 @ a2) (w1 @ w2) (p1 @ p2) blk w) = None"
    by (simp only: r raised_def fst_conv)
  have g4: "emitted (start_accumulation cfg a1 w1 p1 blk w)
           @ emitted (continue_accumulation cfg a2 w2 p2 blk
                        (state_after (start_accumulation cfg a1 w1 p1 blk w)))
           = emitted (start_accumulation cfg (a1 @ a2) (w1 @ w2) (p1 @ p2) blk w)"
    unfolding s1 by (simp only: r1 r2 r emitted_def snd_conv t simp_thms)
  have g5: "core (state_after (continue_accumulation cfg a2 w2 p2 blk
                                (state_after (start_accumulation cfg a1 w1 p1 blk w))))
           = core (state_after (start_accumulation cfg (a1 @ a2) (w1 @ w2) (p1 @ p2) blk w))"
    unfolding s1 by (simp only: r2 r state_after_def fst_conv snd_conv C simp_thms)
  show ?thesis
    using g1 g2 g3 g4 g5 by (intro conjI)
qed

text \<open>The theorem on the scenario, split after its fourth sample.\<close>

theorem continuation_equivalence_witness:
  "raised (start_accumulation scenario_cfg [0, 0, 1, 1] [Fl 1, Fl 1, Fl 1, Fl 1]
             [[Fl 1, Fl 0, Fl 0], [Fl 1, Fl 0, Fl 0], [Fl 0, Fl 1, Fl 0], [Fl 0, Fl 1, Fl 0]] 0
             (init scenario_cfg)) = None \<and>
   emitted (start_accumulation scenario_cfg [0, 0, 1, 1] [Fl 1, Fl 1, Fl 1, Fl 1]
              [[Fl 1, Fl 0, Fl 0], [Fl 1, Fl 0, Fl 0], [Fl 0, Fl 1, Fl 0], [Fl 0, Fl 1, Fl 0]] 0
              (init scenario_cfg))
     @ emitted (continue_accumulation scenario_cfg [2, 2, 1, 0] [Fl 1, Fl 1, Fl 1, Fl 1]
                  [[Fl 0, Fl 0, Fl 1], [Fl 0, Fl 0, Fl 1], [Fl 0, Fl 1, Fl 0], [Fl 1, Fl 0, Fl 0]] 0
                  (state_after (start_accumulation scenario_cfg [0, 0, 1, 1] [Fl 1, Fl 1, Fl 1, Fl 1]
                     [[Fl 1, Fl 0, Fl 0], [Fl 1, Fl 0, Fl 0], [Fl 0, Fl 1, Fl 0], [Fl 0, Fl 1, Fl 0]] 0
                     (init scenario_cfg))))
     = emitted (start_accumulation scenario_cfg [0, 0, 1, 1, 2, 2, 1, 0]
                  [Fl 1, Fl 1, Fl 1, Fl 1, Fl 1, Fl 1, Fl 1, Fl 1]
                  [[Fl 1, Fl 0, Fl 0], [Fl 1, Fl 0, Fl 0], [Fl 0, Fl 1, Fl 0], [Fl 0, Fl 1, Fl 0],
                   [Fl 0, Fl 0, Fl 1], [Fl 0, Fl 0, Fl 1], [Fl 0, Fl 1, Fl 0], [Fl 1, Fl 0, Fl 0]] 0
                  (init scenario_cfg)) \<and>
   core (state_after (continue_accumulation scenario_cfg [2, 2, 1, 0] [Fl 1, Fl 1, Fl 1, Fl 1]
                  [[Fl 0, Fl 0, Fl 1], [Fl 0, Fl 0, Fl 1], [Fl 0, Fl 1, Fl 0], [Fl 1, Fl 0, Fl 0]] 0
                  (state_after (start_accumulation scenario_cfg [0, 0, 1, 1] [Fl 1, Fl 1, Fl 1, Fl 1]
                     [[Fl 1, Fl 0, Fl 0], [Fl 1, Fl 0, Fl 0], [Fl 0, Fl 1, Fl 0], [Fl 0, Fl 1, Fl 0]] 0
                     (init scenario_cfg)))))
     = core (state_after (start_accumulation scenario_cfg [0, 0, 1, 1, 2, 2, 1, 0]
                  [Fl 1, Fl 1, Fl 1, Fl 1, Fl 1, Fl 1, Fl 1, Fl 1]
                  [[Fl 1, Fl 0, Fl 0], [Fl 1, Fl 0, Fl 0], [Fl 0, Fl 1, Fl 0], [Fl 0, Fl 1, Fl 0],
                   [Fl 0, Fl 0, Fl 1], [Fl 0, Fl 0, Fl 1], [Fl 0, Fl 1, Fl 0], [Fl 1, Fl 0, Fl 0]] 0
                  (init scenario_cfg)))"
proof -
  have h1: "chunk_ok scenario_cfg [0, 0, 1, 1] [Fl 1, Fl 1, Fl 1, Fl 1]
              [[Fl 1, Fl 0, Fl 0], [Fl 1, Fl 0, Fl 0], [Fl 0, Fl 1, Fl 0], [Fl 0, Fl 1, Fl 0]]"
    by (simp add: chunk_ok_def scenario_cfg_def)
  have h2: "chunk_ok scenario_cfg [2, 2, 1, 0] [Fl 1, Fl 1, Fl 1, Fl 1]
              [[Fl 0, Fl 0, Fl 1], [Fl 0, Fl 0, Fl 1], [Fl 0, Fl 1, Fl 0], [Fl 1, Fl 0, Fl 0]]"
    by (simp add: chunk_ok_def scenario_cfg_def)
  from continuation_equivalence [OF h1 h2, of 0 "init scenario_cfg"] show ?thesis
    by (simp only: append.simps simp_thms)
qed

end
